theory Spec2Isabelle
  imports Complex_Main "HOL-Library.Word"
begin

section \<open>The YOLOv8 detection node (scripts/yolo\_v8.py)\<close>

text \<open>
  The node is one Python class, \<open>Yolo_Dect\<close>. Its methods mutate \<open>self\<close>, draw into
  numpy arrays in place and call four libraries (numpy, OpenCV, ultralytics, rospy).
  The embedding passes the state of \<open>self\<close> explicitly, keeps the numpy arrays in a
  store addressed by reference, returns every exception as a value, and records every
  call that leaves the process (detector calls, drawing calls, publications, the
  diagnostic window) in a trace.

  A Python \<open>float\<close> is modelled by the real number it denotes. The program never does
  arithmetic on a float: it passes confidences through and converts box coordinates to
  64-bit integers.
\<close>

subsection \<open>Data\<close>

type_synonym uint8 = "8 word"
type_synonym int64 = "64 word"

datatype error =
    ValueError        \<comment> \<open>numpy: \<open>reshape\<close> cannot produce the requested shape\<close>
  | cv2_error         \<comment> \<open>OpenCV: \<open>cvtColor\<close> rejects its source\<close>
  | IndexError
  | KeyError
  | OverflowError
  | AttributeError
  | Detector_error string  \<comment> \<open>whatever a detector call raises\<close>

text \<open>A numpy array of \<open>uint8\<close>: its shape and its elements in row-major order.\<close>

record ndarray =
  shape :: "nat list"
  buf :: "uint8 list"

text \<open>\<open>std_msgs/Header\<close>, \<open>sensor_msgs/Image\<close> and \<open>sensor_msgs/CompressedImage\<close>.\<close>

record Header =
  stamp :: nat
  frame_id :: string

record Image =
  header :: Header
  height :: nat
  width :: nat
  encoding :: string
  step :: nat
  data :: "uint8 list"

record CompressedImage =
  format :: string
  cdata :: "uint8 list"

text \<open>
  Modelled from the spec: the message definitions of \<open>yolov8_ros_msgs\<close> are not among
  the sources. A \<open>BoundingBox\<close> has the six fields the node assigns: a class label, a
  floating-point confidence and four integer corners, which the node fills with 64-bit
  integers. A detections message (\<open>BoundingBoxes\<close>) carries the ordered list of them.
\<close>

record BoundingBox =
  probability :: real
  xmin :: int64
  ymin :: int64
  xmax :: int64
  ymax :: int64
  Class :: string

text \<open>
  What ultralytics returns for one image: the detected boxes, each with its corner
  coordinates \<open>xyxy\<close>, class id \<open>cls\<close> and confidence \<open>conf\<close>, and the class-name
  table \<open>names\<close> of the model that produced them.
\<close>

record box =
  xyxy :: "real \<times> real \<times> real \<times> real"
  cls :: int
  conf :: real

record Results =
  boxes :: "box list"
  names :: "int \<rightharpoonup> string"

text \<open>
  A \<open>YOLO\<close> object as the node configures it: the weight file it was loaded from,
  whether \<open>fuse()\<close> was called, the device it was moved to, and the attribute \<open>conf\<close>
  the constructor assigns (absent on a freshly loaded model).
\<close>

record YOLO =
  weights :: string
  fused :: bool
  yolo_device :: string
  yolo_conf :: "real option"

text \<open>The two publishers of the node and what can be published on them.\<close>

datatype publisher = position_pub | image_pub

datatype message =
    Image_message Image
  | BoundingBoxes_message "BoundingBox list"

text \<open>
  The trace: one event for each call that leaves the process. \<open>Predict k img c\<close> is the
  call \<open>self.model\<^sub>k(img, show=False, conf=c)\<close>.
\<close>

datatype event =
    Predict nat ndarray real
  | Rectangle "int64 \<times> int64" "int64 \<times> int64" "nat \<times> nat \<times> nat" nat
  | PutText string "int64 \<times> int64" nat real "nat \<times> nat \<times> nat" nat
  | Publish publisher message
  | Imshow string ndarray
  | WaitKey nat

text \<open>
  The libraries, as parameters: what a detector returns for an image and a per-call
  confidence, what OpenCV's decoder and drawing routines compute, how a float prints
  with two decimals, and what the clock reads at its n-th reading.
\<close>

record extern =
  predict :: "YOLO \<Rightarrow> ndarray \<Rightarrow> real \<Rightarrow> error + Results list"
  imdecode :: "uint8 list \<Rightarrow> ndarray option"
  rectangle :: "ndarray \<Rightarrow> int64 \<times> int64 \<Rightarrow> int64 \<times> int64 \<Rightarrow> nat \<times> nat \<times> nat \<Rightarrow> nat \<Rightarrow> ndarray"
  putText :: "ndarray \<Rightarrow> string \<Rightarrow> int64 \<times> int64 \<Rightarrow> nat \<Rightarrow> real \<Rightarrow> nat \<times> nat \<times> nat \<Rightarrow> nat \<Rightarrow> ndarray"
  format_2f :: "real \<Rightarrow> string"
  Time_now :: "nat \<Rightarrow> nat"

text \<open>
  The parameter server: a parameter that is not set is \<open>None\<close>, and \<open>get_param\<close>
  then returns the default written in the constructor.
\<close>

record param_server =
  p_weight_path :: "string option"
  p_image_topic :: "string option"
  p_pub_topic :: "string option"
  p_camera_frame :: "string option"
  p_use_compressed :: "bool option"
  p_conf :: "real option"
  p_visualize :: "bool option"
  p_use_cpu :: "bool option"

text \<open>
  The state of \<open>self\<close> together with the store of arrays and the trace.
  \<open>color_image\<close> is a reference into \<open>heap\<close>; it is \<open>None\<close> until a callback has
  assigned the attribute. \<open>now_calls\<close> counts the readings of the clock.
\<close>

record node =
  camera_frame :: string
  use_compressed :: bool
  visualize :: bool
  device :: string
  model1 :: YOLO
  model2 :: YOLO
  image_topic :: string
  pub_topic :: string
  color_image :: "nat option"
  heap :: "ndarray list"
  events :: "event list"
  now_calls :: nat

definition emit :: "event \<Rightarrow> node \<Rightarrow> node" where
  "emit e s = s\<lparr>events := events s @ [e]\<rparr>"

text \<open>A new array object bound to \<open>self.color_image\<close>.\<close>

definition assign_color_image :: "ndarray \<Rightarrow> node \<Rightarrow> node" where
  "assign_color_image a s = s\<lparr>heap := heap s @ [a], color_image := Some (length (heap s))\<rparr>"

subsection \<open>numpy and OpenCV\<close>

text \<open>\<open>np.frombuffer(bs, dtype=np.uint8)\<close>: a one-dimensional array over the bytes.\<close>

definition frombuffer :: "uint8 list \<Rightarrow> ndarray" where
  "frombuffer bs = \<lparr>shape = [length bs], buf = bs\<rparr>"

text \<open>
  \<open>a.reshape(h, w, -1)\<close>: the third dimension is derived from the size. numpy raises
  \<open>ValueError\<close> when \<open>h * w\<close> is 0 (the missing dimension cannot be derived) and when the
  size is not a multiple of \<open>h * w\<close>.
\<close>

definition reshape :: "ndarray \<Rightarrow> nat \<Rightarrow> nat \<Rightarrow> error + ndarray" where
  "reshape a h w =
     (let n = length (buf a) in
      if h * w = 0 \<or> n mod (h * w) \<noteq> 0 then Inl ValueError
      else Inr \<lparr>shape = [h, w, n div (h * w)], buf = buf a\<rparr>)"

text \<open>
  \<open>cv2.cvtColor(src, cv2.COLOR_BGR2RGB)\<close>: OpenCV accepts a non-empty source of three
  or four channels and returns a new three-channel array with the first and third
  channel exchanged (a fourth channel is dropped); any other source raises
  \<open>cv2.error\<close>, and so does \<open>None\<close>.
\<close>

fun bgr2rgb :: "uint8 list \<Rightarrow> uint8 list" where
  "bgr2rgb (b # g # r # rest) = r # g # b # bgr2rgb rest"
| "bgr2rgb _ = []"

fun bgra2rgb :: "uint8 list \<Rightarrow> uint8 list" where
  "bgra2rgb (b # g # r # a # rest) = r # g # b # bgra2rgb rest"
| "bgra2rgb _ = []"

definition cvtColor_BGR2RGB :: "ndarray option \<Rightarrow> error + ndarray" where
  "cvtColor_BGR2RGB src =
     (case src of
        None \<Rightarrow> Inl cv2_error
      | Some a \<Rightarrow>
          (case shape a of
             [h, w, c] \<Rightarrow>
               if h * w = 0 then Inl cv2_error
               else if c = 3 then Inr \<lparr>shape = [h, w, 3], buf = bgr2rgb (buf a)\<rparr>
               else if c = 4 then Inr \<lparr>shape = [h, w, 3], buf = bgra2rgb (buf a)\<rparr>
               else Inl cv2_error
           | _ \<Rightarrow> Inl cv2_error))"

text \<open>
  \<open>np.int64(x)\<close> for a finite Python float \<open>x\<close>: the float is converted as \<open>int(x)\<close>
  does it, dropping the fractional part, and the conversion raises \<open>OverflowError\<close> when
  the integer does not fit 64 bits. Arithmetic on the result, as in \<open>ymin - 10\<close>, is
  64-bit arithmetic.
\<close>

definition int_of_float :: "real \<Rightarrow> int" where
  "int_of_float x = (if x < 0 then - \<lfloor>- x\<rfloor> else \<lfloor>x\<rfloor>)"

definition np_int64 :: "real \<Rightarrow> error + int64" where
  "np_int64 x =
     (let n = int_of_float x in
      if - (2 ^ 63) \<le> n \<and> n < 2 ^ 63 then Inr (word_of_int n) else Inl OverflowError)"

text \<open>
  \<open>cv2.rectangle\<close> and \<open>cv2.putText\<close> draw into the array their first argument refers
  to: the array at that reference is replaced by what the library computes, and the
  call is recorded.
\<close>

definition cv2_rectangle ::
  "extern \<Rightarrow> nat \<Rightarrow> int64 \<times> int64 \<Rightarrow> int64 \<times> int64 \<Rightarrow> nat \<times> nat \<times> nat \<Rightarrow> nat \<Rightarrow> node \<Rightarrow> node" where
  "cv2_rectangle ext frame pt1 pt2 color thickness s =
     emit (Rectangle pt1 pt2 color thickness)
       (s\<lparr>heap := (heap s)[frame := rectangle ext (heap s ! frame) pt1 pt2 color thickness]\<rparr>)"

definition cv2_putText ::
  "extern \<Rightarrow> nat \<Rightarrow> string \<Rightarrow> int64 \<times> int64 \<Rightarrow> nat \<Rightarrow> real \<Rightarrow> nat \<times> nat \<times> nat \<Rightarrow> nat \<Rightarrow> node \<Rightarrow> node" where
  "cv2_putText ext frame txt org fontFace fontScale color thickness s =
     emit (PutText txt org fontFace fontScale color thickness)
       (s\<lparr>heap :=
           (heap s)[frame := putText ext (heap s ! frame) txt org fontFace fontScale color thickness]\<rparr>)"

subsection \<open>The constructor\<close>

definition get_param :: "'a option \<Rightarrow> 'a \<Rightarrow> 'a" where
  "get_param v dflt = (case v of None \<Rightarrow> dflt | Some x \<Rightarrow> x)"

text \<open>\<open>os.path.join(d, f)\<close> for a relative file name \<open>f\<close>.\<close>

definition path_join :: "string \<Rightarrow> string \<Rightarrow> string" where
  "path_join d f = (if d = [] then f else if last d = CHR ''/'' then d @ f else d @ ''/'' @ f)"

text \<open>\<open>YOLO(path)\<close> followed by \<open>fuse()\<close>, \<open>to(device)\<close> and the assignment of \<open>conf\<close>.\<close>

definition load_YOLO :: "string \<Rightarrow> YOLO" where
  "load_YOLO path = \<lparr>weights = path, fused = False, yolo_device = ''cpu'', yolo_conf = None\<rparr>"

definition init :: "param_server \<Rightarrow> node" where
  "init ps =
     (let weight_path = get_param (p_weight_path ps) [];
          image_topic' = get_param (p_image_topic ps) ''/camera/color/image_raw'';
          pub_topic' = get_param (p_pub_topic ps) ''/yolov8/BoundingBoxes'';
          camera_frame' = get_param (p_camera_frame ps) [];
          use_compressed' = get_param (p_use_compressed ps) False;
          conf' = get_param (p_conf ps) (1 / 2);
          visualize' = get_param (p_visualize ps) True;
          device' = (if get_param (p_use_cpu ps) False then ''cpu'' else ''cuda'');
          m1 = load_YOLO (path_join weight_path ''new_object_detect.pt'');
          m2 = load_YOLO (path_join weight_path ''yolov8m.pt'');
          m1 = m1\<lparr>fused := True\<rparr>;
          m2 = m2\<lparr>fused := True\<rparr>;
          m1 = m1\<lparr>yolo_device := device'\<rparr>;
          m2 = m2\<lparr>yolo_device := device'\<rparr>;
          m1 = m1\<lparr>yolo_conf := Some conf'\<rparr>;
          m2 = m2\<lparr>yolo_conf := Some conf'\<rparr>
      in \<lparr>camera_frame = camera_frame', use_compressed = use_compressed',
          visualize = visualize', device = device', model1 = m1, model2 = m2,
          image_topic = image_topic', pub_topic = pub_topic',
          color_image = None, heap = [], events = [], now_calls = 0\<rparr>)"

subsection \<open>Publishing the annotated frame\<close>

text \<open>
  The fields are the Python values the method assigns; \<open>Time.now()\<close> is the next reading
  of the clock.
\<close>

definition publish_image :: "extern \<Rightarrow> ndarray \<Rightarrow> nat \<Rightarrow> nat \<Rightarrow> node \<Rightarrow> node" where
  "publish_image ext imgdata height' width' s =
     (let header' = \<lparr>stamp = Time_now ext (now_calls s), frame_id = camera_frame s\<rparr>;
          image_temp = \<lparr>header = header', height = height', width = width',
                        encoding = ''rgb8'', step = width' * 3, data = buf imgdata\<rparr>
      in emit (Publish image_pub (Image_message image_temp))
           (s\<lparr>now_calls := Suc (now_calls s)\<rparr>))"

subsection \<open>Handling one detector's results\<close>

text \<open>
  The body of the loop up to the drawing: the four coordinates are converted in turn,
  the class name is looked up in the table of the model that produced the box, and the
  confidence is stored.
\<close>

definition fill_BoundingBox :: "(int \<rightharpoonup> string) \<Rightarrow> box \<Rightarrow> error + BoundingBox" where
  "fill_BoundingBox nm result =
     (case xyxy result of (x1, y1, x2, y2) \<Rightarrow>
       (case np_int64 x1 of Inl e \<Rightarrow> Inl e | Inr xmin' \<Rightarrow>
       (case np_int64 y1 of Inl e \<Rightarrow> Inl e | Inr ymin' \<Rightarrow>
       (case np_int64 x2 of Inl e \<Rightarrow> Inl e | Inr xmax' \<Rightarrow>
       (case np_int64 y2 of Inl e \<Rightarrow> Inl e | Inr ymax' \<Rightarrow>
       (case nm (cls result) of None \<Rightarrow> Inl KeyError | Some c \<Rightarrow>
          Inr \<lparr>probability = conf result, xmin = xmin', ymin = ymin',
               xmax = xmax', ymax = ymax', Class = c\<rparr>))))))"

text \<open>The two drawing calls for one filled \<open>BoundingBox\<close>, on the array \<open>frame\<close> refers to.\<close>

definition draw_BoundingBox :: "extern \<Rightarrow> nat \<Rightarrow> BoundingBox \<Rightarrow> node \<Rightarrow> node" where
  "draw_BoundingBox ext frame boundingBox s =
     cv2_putText ext frame
       (Class boundingBox @ '': '' @ format_2f ext (probability boundingBox))
       (xmin boundingBox, ymin boundingBox - 10) 0 (6 / 10) (0, 255, 0) 2
       (cv2_rectangle ext frame (xmin boundingBox, ymin boundingBox)
          (xmax boundingBox, ymax boundingBox) (0, 255, 0) 2 s)"

text \<open>The loop \<open>for result in results[0].boxes\<close>.\<close>

fun handle_boxes ::
  "extern \<Rightarrow> (int \<rightharpoonup> string) \<Rightarrow> nat \<Rightarrow> box list \<Rightarrow> node \<Rightarrow> (error + unit) \<times> node" where
  "handle_boxes ext nm frame [] s = (Inr (), s)"
| "handle_boxes ext nm frame (result # rest) s =
     (case fill_BoundingBox nm result of
        Inl e \<Rightarrow> (Inl e, s)
      | Inr boundingBox \<Rightarrow> handle_boxes ext nm frame rest (draw_BoundingBox ext frame boundingBox s))"

text \<open>\<open>handle_results\<close> returns the reference it was given.\<close>

definition handle_results ::
  "extern \<Rightarrow> Results list \<Rightarrow> nat \<Rightarrow> node \<Rightarrow> (error + nat) \<times> node" where
  "handle_results ext results frame s =
     (case results of
        [] \<Rightarrow> (Inl IndexError, s)
      | r0 # _ \<Rightarrow>
          (case handle_boxes ext (names r0) frame (boxes r0) s of
             (Inl e, s') \<Rightarrow> (Inl e, s')
           | (Inr _, s') \<Rightarrow> (Inr frame, s')))"

subsection \<open>Processing one frame\<close>

definition process_image :: "extern \<Rightarrow> node \<Rightarrow> (error + unit) \<times> node" where
  "process_image ext s =
     (case color_image s of
        None \<Rightarrow> (Inl AttributeError, s)
      | Some a \<Rightarrow>
         (let img = heap s ! a;
              s1 = emit (Predict 1 img (3 / 10)) s
          in case predict ext (model1 s) img (3 / 10) of
               Inl e \<Rightarrow> (Inl e, s1)
             | Inr results1 \<Rightarrow>
         (let s2 = emit (Predict 2 img (3 / 10)) s1
          in case predict ext (model2 s) img (3 / 10) of
               Inl e \<Rightarrow> (Inl e, s2)
             | Inr results2 \<Rightarrow>
         (let combined_frame = length (heap s2);
              s3 = s2\<lparr>heap := heap s2 @ [img]\<rparr>
          in case handle_results ext results1 combined_frame s3 of
               (Inl e, s4) \<Rightarrow> (Inl e, s4)
             | (Inr combined_frame, s4) \<Rightarrow>
         (case handle_results ext results2 combined_frame s4 of
               (Inl e, s5) \<Rightarrow> (Inl e, s5)
             | (Inr combined_frame, s5) \<Rightarrow>
         (case shape img of
               h # w # _ \<Rightarrow>
                 (let s6 = publish_image ext (heap s5 ! combined_frame) h w s5
                  in if visualize s
                     then (Inr (), emit (WaitKey 1)
                             (emit (Imshow ''YOLOv8 Combined Detection'' (heap s6 ! combined_frame)) s6))
                     else (Inr (), s6))
             | _ \<Rightarrow> (Inl IndexError, s5)))))))"

subsection \<open>The callbacks\<close>

text \<open>Lines 52 and 53: the raw payload becomes the RGB array \<open>self.color_image\<close>.\<close>

definition decode_raw :: "Image \<Rightarrow> node \<Rightarrow> (error + unit) \<times> node" where
  "decode_raw imsg s =
     (case reshape (frombuffer (data imsg)) (height imsg) (width imsg) of
        Inl e \<Rightarrow> (Inl e, s)
      | Inr bgr \<Rightarrow>
          (let s1 = assign_color_image bgr s
           in case cvtColor_BGR2RGB (Some bgr) of
                Inl e \<Rightarrow> (Inl e, s1)
              | Inr rgb \<Rightarrow> (Inr (), assign_color_image rgb s1)))"

definition image_callback :: "extern \<Rightarrow> Image \<Rightarrow> node \<Rightarrow> (error + unit) \<times> node" where
  "image_callback ext imsg s =
     (case decode_raw imsg s of
        (Inl e, s') \<Rightarrow> (Inl e, s')
      | (Inr _, s') \<Rightarrow> process_image ext s')"

text \<open>Lines 57 to 59: \<open>cv2.imdecode\<close> returns \<open>None\<close> for a payload it cannot decode.\<close>

definition decode_compressed :: "extern \<Rightarrow> CompressedImage \<Rightarrow> node \<Rightarrow> (error + unit) \<times> node" where
  "decode_compressed ext imsg s =
     (let decoded = imdecode ext (cdata imsg);
          s1 = (case decoded of
                  None \<Rightarrow> s\<lparr>color_image := None\<rparr>
                | Some bgr \<Rightarrow> assign_color_image bgr s)
      in case cvtColor_BGR2RGB decoded of
           Inl e \<Rightarrow> (Inl e, s1)
         | Inr rgb \<Rightarrow> (Inr (), assign_color_image rgb s1))"

definition compressed_image_callback ::
  "extern \<Rightarrow> CompressedImage \<Rightarrow> node \<Rightarrow> (error + unit) \<times> node" where
  "compressed_image_callback ext imsg s =
     (case decode_compressed ext imsg s of
        (Inl e, s') \<Rightarrow> (Inl e, s')
      | (Inr _, s') \<Rightarrow> process_image ext s')"

subsection \<open>The subscription\<close>

text \<open>
  The constructor subscribes one callback, chosen by \<open>use_compressed\<close>; a message of
  the other type never reaches it. \<open>rospy\<close> runs the callback for each message it
  delivers, catches an exception the callback raises (it logs it as a bad callback)
  and goes on with the next message.
\<close>

datatype inbound = Raw Image | Compressed CompressedImage

definition deliver :: "extern \<Rightarrow> inbound \<Rightarrow> node \<Rightarrow> (error + unit) \<times> node" where
  "deliver ext m s =
     (case m of
        Raw imsg \<Rightarrow>
          if use_compressed s then (Inr (), s) else image_callback ext imsg s
      | Compressed imsg \<Rightarrow>
          if use_compressed s then compressed_image_callback ext imsg s else (Inr (), s))"

fun spin :: "extern \<Rightarrow> inbound list \<Rightarrow> node \<Rightarrow> node" where
  "spin ext [] s = s"
| "spin ext (m # ms) s = spin ext ms (snd (deliver ext m s))"

subsection \<open>Observations on the trace\<close>

text \<open>The drawing calls in a trace, and the two drawing calls made for one \<open>BoundingBox\<close>.\<close>

definition is_draw :: "event \<Rightarrow> bool" where
  "is_draw e = (case e of Rectangle _ _ _ _ \<Rightarrow> True | PutText _ _ _ _ _ _ \<Rightarrow> True | _ \<Rightarrow> False)"

definition overlay_calls :: "extern \<Rightarrow> BoundingBox \<Rightarrow> event list" where
  "overlay_calls ext bb =
     [Rectangle (xmin bb, ymin bb) (xmax bb, ymax bb) (0, 255, 0) 2,
      PutText (Class bb @ '': '' @ format_2f ext (probability bb)) (xmin bb, ymin bb - 10)
        0 (6 / 10) (0, 255, 0) 2]"


text \<open>What a trace publishes, in order: the publisher and the message.\<close>

fun publication :: "event \<Rightarrow> (publisher \<times> message) list" where
  "publication (Publish p m) = [(p, m)]"
| "publication _ = []"

definition publications :: "event list \<Rightarrow> (publisher \<times> message) list" where
  "publications es = concat (map publication es)"

text \<open>The detector calls in a trace: the number of the model and the confidence passed.\<close>

fun predict_call :: "event \<Rightarrow> (nat \<times> real) list" where
  "predict_call (Predict k img c) = [(k, c)]"
| "predict_call _ = []"

definition predict_calls :: "event list \<Rightarrow> (nat \<times> real) list" where
  "predict_calls es = concat (map predict_call es)"

text \<open>
  What is assumed of OpenCV where a property needs it: the drawing routines keep the shape
  and the size of the array they draw into, and the decoder returns dense arrays (as many
  elements as the shape says). \<open>published_ok\<close> is the consistency of one published
  message: it is an \<open>rgb8\<close> image on \<open>image_pub\<close> whose step is three times its width
  and whose data has \<open>height * width * 3\<close> bytes.
\<close>

definition draws_in_place :: "extern \<Rightarrow> bool" where
  "draws_in_place ext \<longleftrightarrow>
     (\<forall>a pt1 pt2 color thickness.
        shape (rectangle ext a pt1 pt2 color thickness) = shape a
        \<and> length (buf (rectangle ext a pt1 pt2 color thickness)) = length (buf a))
   \<and> (\<forall>a txt org fontFace fontScale color thickness.
        shape (putText ext a txt org fontFace fontScale color thickness) = shape a
        \<and> length (buf (putText ext a txt org fontFace fontScale color thickness)) = length (buf a))"

definition imdecode_dense :: "extern \<Rightarrow> bool" where
  "imdecode_dense ext \<longleftrightarrow>
     (\<forall>bs a. imdecode ext bs = Some a \<longrightarrow> length (buf a) = prod_list (shape a))"

fun published_ok :: "publisher \<times> message \<Rightarrow> bool" where
  "published_ok (image_pub, Image_message m) =
     (encoding m = ''rgb8'' \<and> step m = width m * 3 \<and> length (data m) = height m * width m * 3)"
| "published_ok _ = False"

text \<open>
  Two states of the node agree when they have the same configuration, detectors and clock
  count and have published the same messages; they may differ in the store, in what
  \<open>color_image\<close> refers to and in the other events of the trace.
\<close>

definition agree :: "node \<Rightarrow> node \<Rightarrow> bool" where
  "agree s t \<longleftrightarrow>
     camera_frame s = camera_frame t \<and> use_compressed s = use_compressed t
     \<and> visualize s = visualize t \<and> model1 s = model1 t \<and> model2 s = model2 t
     \<and> now_calls s = now_calls t \<and> publications (events s) = publications (events t)"

subsection \<open>Example inputs\<close>

text \<open>
  A small world to run the node in. On a black frame neither detector finds anything;
  on any other frame the first detector finds two cones and the second one person, and
  the second detector fails on the frame of all nines. Both models use class id 0, each
  with its own name for it. The drawing routines overwrite the first two bytes of the
  array they are given.
\<close>

definition demo_results1 :: Results where
  "demo_results1 =
     \<lparr>boxes = [\<lparr>xyxy = (107 / 10, 102 / 10, 509 / 10, 805 / 10), cls = 0, conf = 91 / 100\<rparr>,
               \<lparr>xyxy = (15 / 10, 25 / 10, 35 / 10, 45 / 10), cls = 0, conf = 40 / 100\<rparr>],
      names = [0 \<mapsto> ''cone'']\<rparr>"

definition demo_results2 :: Results where
  "demo_results2 =
     \<lparr>boxes = [\<lparr>xyxy = (102 / 10, 109 / 10, 501 / 10, 803 / 10), cls = 0, conf = 88 / 100\<rparr>],
      names = [0 \<mapsto> ''person'']\<rparr>"

definition demo_extern :: extern where
  "demo_extern =
     \<lparr>predict = (\<lambda>m img c.
        if weights m = ''w/yolov8m.pt''
        then (if buf img = [9, 9, 9] then Inl (Detector_error ''CUDA error'')
              else if buf img = [0, 0, 0] then Inr [\<lparr>boxes = [], names = [0 \<mapsto> ''person'']\<rparr>]
              else Inr [demo_results2])
        else (if buf img = [0, 0, 0] then Inr [\<lparr>boxes = [], names = [0 \<mapsto> ''cone'']\<rparr>]
              else Inr [demo_results1])),
      imdecode = (\<lambda>bs. if bs = [137, 80] then Some \<lparr>shape = [1, 1, 3], buf = [1, 2, 3]\<rparr> else None),
      rectangle = (\<lambda>a pt1 pt2 color thickness. a\<lparr>buf := (buf a)[0 := 0]\<rparr>),
      putText = (\<lambda>a txt org fontFace fontScale color thickness. a\<lparr>buf := (buf a)[1 := 255]\<rparr>),
      format_2f = (\<lambda>p. if p = 91 / 100 then ''0.91'' else if p = 88 / 100 then ''0.88'' else ''0.40''),
      Time_now = (\<lambda>n. 100 + n)\<rparr>"

definition demo_params :: param_server where
  "demo_params =
     \<lparr>p_weight_path = Some ''w'', p_image_topic = None, p_pub_topic = None,
      p_camera_frame = Some ''cam'', p_use_compressed = None, p_conf = Some (7 / 10),
      p_visualize = Some False, p_use_cpu = Some True\<rparr>"

definition raw_frame :: "nat \<Rightarrow> nat \<Rightarrow> uint8 list \<Rightarrow> Image" where
  "raw_frame h w bs =
     \<lparr>header = \<lparr>stamp = 0, frame_id = []\<rparr>, height = h, width = w,
      encoding = ''bgr8'', step = w * 3, data = bs\<rparr>"

text \<open>The node after it has decoded the one-pixel frame with BGR bytes 1, 2, 3.\<close>

definition demo_decoded :: node where
  "demo_decoded = snd (decode_raw (raw_frame 1 1 [1, 2, 3]) (init demo_params))"

text \<open>The node after it has decoded the one-pixel frame of all nines.\<close>

definition demo_failing :: node where
  "demo_failing = snd (decode_raw (raw_frame 1 1 [9, 9, 9]) (init demo_params))"

definition demo_box :: box where
  "demo_box = \<lparr>xyxy = (- 27 / 10, 107 / 10, 509 / 10, 805 / 10), cls = 0, conf = 3 / 2\<rparr>"

lemmas demo_defs = demo_extern_def demo_params_def raw_frame_def init_def get_param_def
  demo_decoded_def demo_failing_def demo_results1_def demo_results2_def demo_box_def
  path_join_def load_YOLO_def decode_raw_def reshape_def frombuffer_def cvtColor_BGR2RGB_def
  assign_color_image_def emit_def Let_def

lemmas run_defs = image_callback_def deliver_def process_image_def handle_results_def
  fill_BoundingBox_def np_int64_def int_of_float_def draw_BoundingBox_def cv2_rectangle_def
  cv2_putText_def publish_image_def


section \<open>Properties\<close>

subsection \<open>What the drawing loop changes\<close>

lemma draw_BoundingBox_events:
  "events (draw_BoundingBox ext frame bb s) = events s @ overlay_calls ext bb"
  by (simp add: draw_BoundingBox_def cv2_putText_def cv2_rectangle_def emit_def overlay_calls_def)

lemma draw_BoundingBox_heap:
  "heap (draw_BoundingBox ext frame bb s) =
     (heap s)[frame := putText ext (rectangle ext (heap s ! frame) (xmin bb, ymin bb) (xmax bb, ymax bb) (0, 255, 0) 2)
        (Class bb @ '': '' @ format_2f ext (probability bb)) (xmin bb, ymin bb - 10) 0 (6 / 10) (0, 255, 0) 2]"
  by (cases "frame < length (heap s)")
     (simp_all add: draw_BoundingBox_def cv2_putText_def cv2_rectangle_def emit_def list_update_beyond)

lemma draw_BoundingBox_rest:
  "camera_frame (draw_BoundingBox ext frame bb s) = camera_frame s"
  "use_compressed (draw_BoundingBox ext frame bb s) = use_compressed s"
  "visualize (draw_BoundingBox ext frame bb s) = visualize s"
  "device (draw_BoundingBox ext frame bb s) = device s"
  "model1 (draw_BoundingBox ext frame bb s) = model1 s"
  "model2 (draw_BoundingBox ext frame bb s) = model2 s"
  "image_topic (draw_BoundingBox ext frame bb s) = image_topic s"
  "pub_topic (draw_BoundingBox ext frame bb s) = pub_topic s"
  "color_image (draw_BoundingBox ext frame bb s) = color_image s"
  "now_calls (draw_BoundingBox ext frame bb s) = now_calls s"
  by (simp_all add: draw_BoundingBox_def cv2_putText_def cv2_rectangle_def emit_def)

lemma handle_boxes_rest:
  "camera_frame (snd (handle_boxes ext nm frame bs s)) = camera_frame s
   \<and> use_compressed (snd (handle_boxes ext nm frame bs s)) = use_compressed s
   \<and> visualize (snd (handle_boxes ext nm frame bs s)) = visualize s
   \<and> device (snd (handle_boxes ext nm frame bs s)) = device s
   \<and> model1 (snd (handle_boxes ext nm frame bs s)) = model1 s
   \<and> model2 (snd (handle_boxes ext nm frame bs s)) = model2 s
   \<and> image_topic (snd (handle_boxes ext nm frame bs s)) = image_topic s
   \<and> pub_topic (snd (handle_boxes ext nm frame bs s)) = pub_topic s
   \<and> color_image (snd (handle_boxes ext nm frame bs s)) = color_image s
   \<and> now_calls (snd (handle_boxes ext nm frame bs s)) = now_calls s
   \<and> length (heap (snd (handle_boxes ext nm frame bs s))) = length (heap s)"
  by (induction bs arbitrary: s)
     (simp_all add: draw_BoundingBox_rest draw_BoundingBox_heap split: sum.splits)

lemma handle_boxes_take:
  "n \<le> frame \<Longrightarrow> take n (heap (snd (handle_boxes ext nm frame bs s))) = take n (heap s)"
  by (induction bs arbitrary: s)
     (simp_all add: draw_BoundingBox_heap split: sum.splits)

lemma handle_boxes_events_ok:
  "map (fill_BoundingBox nm) bs = map Inr bbs \<Longrightarrow>
   fst (handle_boxes ext nm frame bs s) = Inr ()
   \<and> events (snd (handle_boxes ext nm frame bs s)) = events s @ concat (map (overlay_calls ext) bbs)"
proof (induction bs arbitrary: s bbs)
  case Nil
  then show ?case by simp
next
  case (Cons b bs)
  then obtain bb rest where bbs: "bbs = bb # rest" and b: "fill_BoundingBox nm b = Inr bb"
    and r: "map (fill_BoundingBox nm) bs = map Inr rest"
    by (cases bbs) auto
  from Cons.IH [OF r, of "draw_BoundingBox ext frame bb s"] show ?case
    by (simp add: b bbs draw_BoundingBox_events)
qed

lemma handle_results_unfold:
  "handle_results ext (r # rs) frame s =
     (case fst (handle_boxes ext (names r) frame (boxes r) s) of
        Inl e \<Rightarrow> (Inl e, snd (handle_boxes ext (names r) frame (boxes r) s))
      | Inr _ \<Rightarrow> (Inr frame, snd (handle_boxes ext (names r) frame (boxes r) s)))"
  by (simp add: handle_results_def split: prod.splits sum.splits)

lemma handle_results_snd:
  "snd (handle_results ext rs frame s) =
     (case rs of [] \<Rightarrow> s | r # _ \<Rightarrow> snd (handle_boxes ext (names r) frame (boxes r) s))"
  by (simp add: handle_results_def split: prod.splits sum.splits list.splits)

lemma handle_results_take:
  "n \<le> frame \<Longrightarrow> take n (heap (snd (handle_results ext rs frame s))) = take n (heap s)"
  by (simp add: handle_results_snd handle_boxes_take split: list.splits)

lemma handle_results_rest:
  "color_image (snd (handle_results ext rs frame s)) = color_image s
   \<and> now_calls (snd (handle_results ext rs frame s)) = now_calls s
   \<and> length (heap (snd (handle_results ext rs frame s))) = length (heap s)"
  by (simp add: handle_results_snd handle_boxes_rest split: list.splits)

lemma publish_image_heap: "heap (publish_image ext d h w s) = heap s"
  "color_image (publish_image ext d h w s) = color_image s"
  by (simp_all add: publish_image_def emit_def Let_def)


lemma handle_results_Inr:
  "handle_results ext rs frame s = (Inr f, s') \<Longrightarrow> f = frame"
  by (auto simp add: handle_results_def split: prod.splits sum.splits list.splits)

lemma handle_results_case:
  "(case handle_results ext rs frame s of (Inl e, s') \<Rightarrow> A e s' | (Inr f, s') \<Rightarrow> B f s') =
   (case fst (handle_results ext rs frame s) of
      Inl e \<Rightarrow> A e (snd (handle_results ext rs frame s))
    | Inr _ \<Rightarrow> B frame (snd (handle_results ext rs frame s)))"
  by (auto split: prod.splits sum.splits dest: handle_results_Inr)

lemma process_image_unfold:
  assumes "color_image s = Some a"
  shows "process_image ext s =
     (let img = heap s ! a;
          s1 = emit (Predict 1 img (3 / 10)) s
      in case predict ext (model1 s) img (3 / 10) of
           Inl e \<Rightarrow> (Inl e, s1)
         | Inr results1 \<Rightarrow>
     (let s2 = emit (Predict 2 img (3 / 10)) s1
      in case predict ext (model2 s) img (3 / 10) of
           Inl e \<Rightarrow> (Inl e, s2)
         | Inr results2 \<Rightarrow>
     (let f = length (heap s);
          s3 = s2\<lparr>heap := heap s @ [img]\<rparr>;
          s4 = snd (handle_results ext results1 f s3)
      in case fst (handle_results ext results1 f s3) of
           Inl e \<Rightarrow> (Inl e, s4)
         | Inr _ \<Rightarrow>
     (let s5 = snd (handle_results ext results2 f s4)
      in case fst (handle_results ext results2 f s4) of
           Inl e \<Rightarrow> (Inl e, s5)
         | Inr _ \<Rightarrow>
     (case shape img of
           h # w # _ \<Rightarrow>
             (let s6 = publish_image ext (heap s5 ! f) h w s5
              in if visualize s
                 then (Inr (), emit (WaitKey 1)
                         (emit (Imshow ''YOLOv8 Combined Detection'' (heap s6 ! f)) s6))
                 else (Inr (), s6))
         | _ \<Rightarrow> (Inl IndexError, s5))))))"
  unfolding process_image_def handle_results_case
  using assms by (simp add: Let_def emit_def split: sum.splits list.splits)


lemma is_draw_overlay_calls:
  "filter is_draw (concat (map (overlay_calls ext) bbs)) = concat (map (overlay_calls ext) bbs)"
  by (induction bbs) (simp_all add: overlay_calls_def is_draw_def)

lemma handle_results_events_ok:
  assumes "map (fill_BoundingBox (names r)) (boxes r) = map Inr bbs"
  shows "fst (handle_results ext (r # rs) frame s) = Inr frame"
    and "events (snd (handle_results ext (r # rs) frame s))
         = events s @ concat (map (overlay_calls ext) bbs)"
  using handle_boxes_events_ok [OF assms, of ext frame s]
  by (simp_all add: handle_results_unfold)

lemma publish_image_events:
  "events (publish_image ext d h w s) =
     events s @ [Publish image_pub (Image_message
        \<lparr>header = \<lparr>stamp = Time_now ext (now_calls s), frame_id = camera_frame s\<rparr>,
         height = h, width = w, encoding = ''rgb8'', step = w * 3, data = buf d\<rparr>)]"
  by (simp add: publish_image_def emit_def Let_def)

subsection \<open>The input buffer\<close>

text \<open>
  C5: one pass of \<open>process_image\<close> leaves the array \<open>self.color_image\<close> refers to as
  it was, and every other array that existed before the pass: the reference still
  points to the same array, that array has the same contents, and the store the pass
  started with is a prefix of the store it ends with. The rectangles and labels are
  drawn into the array allocated by \<open>copy()\<close>, at a reference that did not exist before.
\<close>

theorem process_image_keeps_input_buffer:
  assumes "color_image s = Some a" and "a < length (heap s)"
  shows "color_image (snd (process_image ext s)) = Some a
    \<and> heap (snd (process_image ext s)) ! a = heap s ! a
    \<and> take (length (heap s)) (heap (snd (process_image ext s))) = heap s"
proof -
  have pre: "take (length (heap s)) (heap (snd (process_image ext s))) = heap s"
    by (simp add: process_image_unfold [OF assms(1)] Let_def emit_def publish_image_heap
        handle_results_take handle_results_rest split: sum.splits list.splits)
  have ref: "color_image (snd (process_image ext s)) = Some a"
    by (simp add: process_image_unfold [OF assms(1)] Let_def emit_def publish_image_heap
        handle_results_rest assms(1) split: sum.splits list.splits)
  have "heap (snd (process_image ext s)) ! a
      = take (length (heap s)) (heap (snd (process_image ext s))) ! a"
    using assms(2) by simp
  with pre ref show ?thesis by simp
qed

text \<open>
  On a one-pixel frame with one detection the pass draws: the copy ends as
  \<open>[0, 255, 1]\<close>, the decoded input is still \<open>[3, 2, 1]\<close>.
\<close>

theorem process_image_keeps_input_buffer_witness:
  "color_image demo_decoded = Some 1 \<and> 1 < length (heap demo_decoded)
   \<and> heap demo_decoded ! 1 = \<lparr>shape = [1, 1, 3], buf = [3, 2, 1]\<rparr>
   \<and> heap (snd (process_image demo_extern demo_decoded)) ! 1 = \<lparr>shape = [1, 1, 3], buf = [3, 2, 1]\<rparr>
   \<and> heap (snd (process_image demo_extern demo_decoded)) ! 2 = \<lparr>shape = [1, 1, 3], buf = [0, 255, 1]\<rparr>"
proof -
  have h1: "color_image demo_decoded = Some 1" by (simp add: demo_defs)
  have h2: "1 < length (heap demo_decoded)" by (simp add: demo_defs)
  have h3: "heap demo_decoded ! 1 = \<lparr>shape = [1, 1, 3], buf = [3, 2, 1]\<rparr>" by (simp add: demo_defs)
  have "heap (snd (process_image demo_extern demo_decoded)) ! 2 = \<lparr>shape = [1, 1, 3], buf = [0, 255, 1]\<rparr>"
    by (simp add: demo_defs run_defs)
  with h1 h2 h3 process_image_keeps_input_buffer [OF h1 h2, of demo_extern] show ?thesis
    by simp
qed

subsection \<open>The order of the overlays\<close>

text \<open>
  What one pass draws: for detector outputs \<open>r1\<close> and \<open>r2\<close> whose boxes fill to the
  records \<open>D1\<close> and \<open>D2\<close>, the drawing calls of the pass are those for \<open>D1\<close> followed by
  those for \<open>D2\<close>, a rectangle and a label for every box, in the detectors' order.
\<close>

lemma drawn_overlays_follow_the_detectors:
  assumes "color_image s = Some a"
    and "predict ext (model1 s) (heap s ! a) (3 / 10) = Inr (r1 # rest1)"
    and "predict ext (model2 s) (heap s ! a) (3 / 10) = Inr (r2 # rest2)"
    and "map (fill_BoundingBox (names r1)) (boxes r1) = map Inr D1"
    and "map (fill_BoundingBox (names r2)) (boxes r2) = map Inr D2"
  shows "filter is_draw (events (snd (process_image ext s)))
           = filter is_draw (events s) @ concat (map (overlay_calls ext) (D1 @ D2))"
  by (simp add: process_image_unfold [OF assms(1)] assms(2,3) Let_def
      handle_results_events_ok [OF assms(4)] handle_results_events_ok [OF assms(5)]
      publish_image_events emit_def is_draw_overlay_calls is_draw_def
      split: list.splits)

subsection \<open>The merged result\<close>

text \<open>
  C3: the node builds no merged result. On the one-pixel frame with BGR bytes 1, 2, 3
  the first detector returns two boxes and the second one box. The pass fills three
  \<open>BoundingBox\<close> records, in the order the claim gives, and draws each of them, but it
  appends them to nothing: \<open>handle_results\<close> returns the frame reference it was given,
  \<open>process_image\<close> returns nothing, and the whole trace of the pass is the two detector
  calls, the six drawing calls and the publication of the image. No sequence of three
  detections exists in the state of the node or in a message.
\<close>

theorem merged_result_is_never_built:
  "length (boxes demo_results1) = 2 \<and> length (boxes demo_results2) = 1
   \<and> predict demo_extern (model1 demo_decoded) (heap demo_decoded ! 1) (3 / 10) = Inr [demo_results1]
   \<and> predict demo_extern (model2 demo_decoded) (heap demo_decoded ! 1) (3 / 10) = Inr [demo_results2]
   \<and> fst (handle_results demo_extern [demo_results1] 2
             (demo_decoded\<lparr>heap := heap demo_decoded @ [heap demo_decoded ! 1]\<rparr>)) = Inr 2
   \<and> fst (process_image demo_extern demo_decoded) = Inr ()
   \<and> events (snd (process_image demo_extern demo_decoded))
      = [Predict 1 \<lparr>shape = [1, 1, 3], buf = [3, 2, 1]\<rparr> (3 / 10),
         Predict 2 \<lparr>shape = [1, 1, 3], buf = [3, 2, 1]\<rparr> (3 / 10),
         Rectangle (10, 10) (50, 80) (0, 255, 0) 2,
         PutText ''cone: 0.91'' (10, 0) 0 (6 / 10) (0, 255, 0) 2,
         Rectangle (1, 2) (3, 4) (0, 255, 0) 2,
         PutText ''cone: 0.40'' (1, - 8) 0 (6 / 10) (0, 255, 0) 2,
         Rectangle (10, 10) (50, 80) (0, 255, 0) 2,
         PutText ''person: 0.88'' (10, 0) 0 (6 / 10) (0, 255, 0) 2,
         Publish image_pub (Image_message
           \<lparr>header = \<lparr>stamp = 100, frame_id = ''cam''\<rparr>, height = 1, width = 1,
            encoding = ''rgb8'', step = 3, data = [0, 255, 1]\<rparr>)]"
  by (simp add: demo_defs run_defs)

subsection \<open>Coordinates and confidence\<close>






subsection \<open>Decoding a raw frame\<close>

lemma length_bgr2rgb: "length (bgr2rgb xs) = 3 * (length xs div 3)"
  by (induction xs rule: bgr2rgb.induct) simp_all

lemma length_bgra2rgb: "length (bgra2rgb xs) = 3 * (length xs div 4)"
  by (induction xs rule: bgra2rgb.induct) simp_all

lemma bgr2rgb_nth:
  "i < length xs div 3 \<Longrightarrow>
     bgr2rgb xs ! (3 * i) = xs ! (3 * i + 2)
   \<and> bgr2rgb xs ! (3 * i + 1) = xs ! (3 * i + 1)
   \<and> bgr2rgb xs ! (3 * i + 2) = xs ! (3 * i)"
proof (induction xs arbitrary: i rule: bgr2rgb.induct)
  case (1 b g r rest)
  show ?case
  proof (cases i)
    case 0
    then show ?thesis by simp
  next
    case (Suc j)
    with "1.prems" have "j < length rest div 3" by simp
    from "1.IH" [OF this] Suc show ?thesis by (simp add: numeral_3_eq_3)
  qed
qed simp_all

lemma decode_raw_events: "events (snd (decode_raw imsg s)) = events s"
  by (simp add: decode_raw_def assign_color_image_def Let_def split: sum.splits)

lemma decode_raw_ok:
  assumes "0 < height imsg" and "0 < width imsg"
    and "length (data imsg) = height imsg * width imsg * 3"
  shows "decode_raw imsg s =
     (Inr (), s\<lparr>heap := heap s @ [\<lparr>shape = [height imsg, width imsg, 3], buf = data imsg\<rparr>,
                                  \<lparr>shape = [height imsg, width imsg, 3], buf = bgr2rgb (data imsg)\<rparr>],
                color_image := Some (Suc (length (heap s)))\<rparr>)"
  using assms
  by (simp add: decode_raw_def reshape_def frombuffer_def cvtColor_BGR2RGB_def
      assign_color_image_def Let_def)

text \<open>
  C4, as the code has it: for a raw message with at least one row and one column whose
  payload has \<open>height * width * 3\<close> bytes, decoding succeeds; \<open>self.color_image\<close> then
  refers to an array of shape \<open>height, width, 3\<close> that holds, for every pixel, the
  third, second and first byte of that pixel of the payload, which is RGB order for a
  payload in BGR order.
\<close>

theorem decode_raw_gives_rgb:
  assumes "0 < height imsg" and "0 < width imsg"
    and "length (data imsg) = height imsg * width imsg * 3"
  shows "fst (decode_raw imsg s) = Inr ()
    \<and> (\<exists>a. color_image (snd (decode_raw imsg s)) = Some a
           \<and> a < length (heap (snd (decode_raw imsg s)))
           \<and> shape (heap (snd (decode_raw imsg s)) ! a) = [height imsg, width imsg, 3]
           \<and> buf (heap (snd (decode_raw imsg s)) ! a) = bgr2rgb (data imsg))
    \<and> length (bgr2rgb (data imsg)) = height imsg * width imsg * 3
    \<and> (\<forall>i < height imsg * width imsg.
           bgr2rgb (data imsg) ! (3 * i) = data imsg ! (3 * i + 2)
         \<and> bgr2rgb (data imsg) ! (3 * i + 1) = data imsg ! (3 * i + 1)
         \<and> bgr2rgb (data imsg) ! (3 * i + 2) = data imsg ! (3 * i))"
proof -
  have len: "length (data imsg) div 3 = height imsg * width imsg"
    using assms(3) by simp
  have px: "\<forall>i < height imsg * width imsg.
           bgr2rgb (data imsg) ! (3 * i) = data imsg ! (3 * i + 2)
         \<and> bgr2rgb (data imsg) ! (3 * i + 1) = data imsg ! (3 * i + 1)
         \<and> bgr2rgb (data imsg) ! (3 * i + 2) = data imsg ! (3 * i)"
  proof (intro allI impI)
    fix i assume "i < height imsg * width imsg"
    then have "i < length (data imsg) div 3" using len by simp
    from bgr2rgb_nth [OF this] show "bgr2rgb (data imsg) ! (3 * i) = data imsg ! (3 * i + 2)
         \<and> bgr2rgb (data imsg) ! (3 * i + 1) = data imsg ! (3 * i + 1)
         \<and> bgr2rgb (data imsg) ! (3 * i + 2) = data imsg ! (3 * i)" .
  qed
  have "fst (decode_raw imsg s) = Inr ()
    \<and> (\<exists>a. color_image (snd (decode_raw imsg s)) = Some a
           \<and> a < length (heap (snd (decode_raw imsg s)))
           \<and> shape (heap (snd (decode_raw imsg s)) ! a) = [height imsg, width imsg, 3]
           \<and> buf (heap (snd (decode_raw imsg s)) ! a) = bgr2rgb (data imsg))
    \<and> length (bgr2rgb (data imsg)) = height imsg * width imsg * 3"
    by (simp add: decode_raw_ok [OF assms] length_bgr2rgb len nth_append)
  with px show ?thesis by blast
qed

text \<open>
  The claim without the condition on the dimensions fails on the empty frame: its
  payload has \<open>0 * 0 * 3\<close> bytes, and \<open>reshape(0, 0, -1)\<close> raises \<open>ValueError\<close>.
\<close>

theorem decode_raw_empty_frame_counterexample:
  "length (data (raw_frame 0 0 [])) = height (raw_frame 0 0 []) * width (raw_frame 0 0 []) * 3
   \<and> fst (decode_raw (raw_frame 0 0 []) (init demo_params)) = Inl ValueError"
  by (simp add: demo_defs)

text \<open>The 2 by 2 frame of the specification: red, green, blue and white, sent as BGR.\<close>

theorem decode_raw_gives_rgb_witness:
  "0 < height (raw_frame 2 2 [0, 0, 255, 0, 255, 0, 255, 0, 0, 255, 255, 255])
   \<and> 0 < width (raw_frame 2 2 [0, 0, 255, 0, 255, 0, 255, 0, 0, 255, 255, 255])
   \<and> length (data (raw_frame 2 2 [0, 0, 255, 0, 255, 0, 255, 0, 0, 255, 255, 255])) = 2 * 2 * 3
   \<and> fst (decode_raw (raw_frame 2 2 [0, 0, 255, 0, 255, 0, 255, 0, 0, 255, 255, 255]) (init demo_params)) = Inr ()
   \<and> color_image (snd (decode_raw (raw_frame 2 2 [0, 0, 255, 0, 255, 0, 255, 0, 0, 255, 255, 255]) (init demo_params))) = Some 1
   \<and> heap (snd (decode_raw (raw_frame 2 2 [0, 0, 255, 0, 255, 0, 255, 0, 0, 255, 255, 255]) (init demo_params))) ! 1
       = \<lparr>shape = [2, 2, 3], buf = [255, 0, 0, 0, 255, 0, 0, 0, 255, 255, 255, 255]\<rparr>"
proof -
  let ?f = "raw_frame 2 2 [0, 0, 255, 0, 255, 0, 255, 0, 0, 255, 255, 255]"
  have h1: "0 < height ?f" by (simp add: raw_frame_def)
  have h2: "0 < width ?f" by (simp add: raw_frame_def)
  have h3: "length (data ?f) = height ?f * width ?f * 3" by (simp add: raw_frame_def)
  have v: "heap (snd (decode_raw ?f (init demo_params))) ! 1
       = \<lparr>shape = [2, 2, 3], buf = [255, 0, 0, 0, 255, 0, 0, 0, 255, 255, 255, 255]\<rparr>"
    "color_image (snd (decode_raw ?f (init demo_params))) = Some 1"
    by (simp_all add: demo_defs)
  show ?thesis
    using h1 h2 h3 v decode_raw_gives_rgb [OF h1 h2 h3, of "init demo_params"]
    by (simp add: raw_frame_def)
qed

text \<open>
  C2, as the code has it: the callback checks no length; \<open>reshape\<close> derives the number
  of channels from the payload and \<open>cvtColor\<close> accepts three or four. For a raw message
  whose payload has neither \<open>height * width * 3\<close> nor \<open>height * width * 4\<close> bytes the
  callback raises (numpy's \<open>ValueError\<close> or OpenCV's error) before \<open>process_image\<close> is
  called: the trace is unchanged, so no detector was invoked and nothing was published.
\<close>

theorem wrong_length_raises_before_detection:
  assumes "length (data imsg) \<noteq> height imsg * width imsg * 3"
    and "length (data imsg) \<noteq> height imsg * width imsg * 4"
  shows "(fst (image_callback ext imsg s) = Inl ValueError
          \<or> fst (image_callback ext imsg s) = Inl cv2_error)
    \<and> events (snd (image_callback ext imsg s)) = events s"
proof -
  let ?n = "length (data imsg)" and ?hw = "height imsg * width imsg"
  show ?thesis
  proof (cases "?hw = 0 \<or> ?n mod ?hw \<noteq> 0")
    case True
    then show ?thesis
      by (simp add: image_callback_def decode_raw_def reshape_def frombuffer_def Let_def)
  next
    case False
    then have "?n = ?hw * (?n div ?hw)" by auto
    with assms have c: "?n div ?hw \<noteq> 3" "?n div ?hw \<noteq> 4" by auto
    with False show ?thesis
      by (simp add: image_callback_def decode_raw_def reshape_def frombuffer_def Let_def
          cvtColor_BGR2RGB_def assign_color_image_def)
  qed
qed

text \<open>
  The claim as stated fails on a payload of four bytes per pixel: the one-pixel frame
  with bytes 0, 0, 0, 7 has 4 bytes, not 3, yet it is decoded (the fourth byte is
  dropped), both detectors are invoked and the frame is published.
\<close>

theorem four_channel_payload_counterexample:
  "length (data (raw_frame 1 1 [0, 0, 0, 7]))
      \<noteq> height (raw_frame 1 1 [0, 0, 0, 7]) * width (raw_frame 1 1 [0, 0, 0, 7]) * 3
   \<and> fst (decode_raw (raw_frame 1 1 [0, 0, 0, 7]) (init demo_params)) = Inr ()
   \<and> fst (image_callback demo_extern (raw_frame 1 1 [0, 0, 0, 7]) (init demo_params)) = Inr ()
   \<and> events (snd (image_callback demo_extern (raw_frame 1 1 [0, 0, 0, 7]) (init demo_params)))
      = [Predict 1 \<lparr>shape = [1, 1, 3], buf = [0, 0, 0]\<rparr> (3 / 10),
         Predict 2 \<lparr>shape = [1, 1, 3], buf = [0, 0, 0]\<rparr> (3 / 10),
         Publish image_pub (Image_message
           \<lparr>header = \<lparr>stamp = 100, frame_id = ''cam''\<rparr>, height = 1, width = 1,
            encoding = ''rgb8'', step = 3, data = [0, 0, 0]\<rparr>)]"
  by (simp add: demo_defs run_defs)

text \<open>A 2 by 2 frame with five bytes of payload.\<close>

theorem wrong_length_raises_before_detection_witness:
  "length (data (raw_frame 2 2 [1, 2, 3, 4, 5]))
      \<noteq> height (raw_frame 2 2 [1, 2, 3, 4, 5]) * width (raw_frame 2 2 [1, 2, 3, 4, 5]) * 3
   \<and> length (data (raw_frame 2 2 [1, 2, 3, 4, 5]))
      \<noteq> height (raw_frame 2 2 [1, 2, 3, 4, 5]) * width (raw_frame 2 2 [1, 2, 3, 4, 5]) * 4
   \<and> fst (image_callback demo_extern (raw_frame 2 2 [1, 2, 3, 4, 5]) (init demo_params)) = Inl ValueError
   \<and> events (snd (image_callback demo_extern (raw_frame 2 2 [1, 2, 3, 4, 5]) (init demo_params))) = []"
proof -
  let ?f = "raw_frame 2 2 [1, 2, 3, 4, 5]"
  have h1: "length (data ?f) \<noteq> height ?f * width ?f * 3" by (simp add: raw_frame_def)
  have h2: "length (data ?f) \<noteq> height ?f * width ?f * 4" by (simp add: raw_frame_def)
  have v: "fst (image_callback demo_extern ?f (init demo_params)) = Inl ValueError"
    by (simp add: demo_defs run_defs)
  have e: "events (init demo_params) = []" by (simp add: demo_defs)
  show ?thesis
    using h1 h2 v e wrong_length_raises_before_detection [OF h1 h2, of demo_extern "init demo_params"]
    by simp
qed

subsection \<open>What a successful pass publishes\<close>

text \<open>
  C1: the node builds a \<open>BoundingBox\<close> for every detection and has a publisher for
  them, but never calls \<open>position_pub.publish\<close>. On the one-pixel frame with BGR bytes
  1, 2, 3 decoding and both detector calls succeed and the detectors return three
  boxes; the only message the callback publishes is the annotated image.
\<close>

theorem detections_are_never_published:
  "fst (deliver demo_extern (Raw (raw_frame 1 1 [1, 2, 3])) (init demo_params)) = Inr ()
   \<and> publications (events (snd (deliver demo_extern (Raw (raw_frame 1 1 [1, 2, 3])) (init demo_params))))
      = [(image_pub, Image_message
           \<lparr>header = \<lparr>stamp = 100, frame_id = ''cam''\<rparr>, height = 1, width = 1,
            encoding = ''rgb8'', step = 3, data = [0, 255, 1]\<rparr>)]"
  by (simp add: demo_defs run_defs publications_def)

text \<open>
  C7: on the black one-pixel frame both detectors return no box. The callback invokes
  both detectors and publishes the annotated image, whose bytes are those of the
  decoded frame; no message with an empty list of detections is published.
\<close>

theorem empty_detections_publish_image_only:
  "fst (deliver demo_extern (Raw (raw_frame 1 1 [0, 0, 0])) (init demo_params)) = Inr ()
   \<and> events (snd (deliver demo_extern (Raw (raw_frame 1 1 [0, 0, 0])) (init demo_params)))
      = [Predict 1 \<lparr>shape = [1, 1, 3], buf = [0, 0, 0]\<rparr> (3 / 10),
         Predict 2 \<lparr>shape = [1, 1, 3], buf = [0, 0, 0]\<rparr> (3 / 10),
         Publish image_pub (Image_message
           \<lparr>header = \<lparr>stamp = 100, frame_id = ''cam''\<rparr>, height = 1, width = 1,
            encoding = ''rgb8'', step = 3, data = [0, 0, 0]\<rparr>)]"
  by (simp add: demo_defs run_defs)

subsection \<open>The confidence passed to the detectors\<close>

lemma publications_append: "publications (xs @ ys) = publications xs @ publications ys"
  by (simp add: publications_def)

lemma predict_calls_append: "predict_calls (xs @ ys) = predict_calls xs @ predict_calls ys"
  by (simp add: predict_calls_def)

lemma overlay_calls_silent:
  "publications (overlay_calls ext bb) = []" "predict_calls (overlay_calls ext bb) = []"
  by (simp_all add: overlay_calls_def publications_def predict_calls_def)

lemma handle_boxes_silent:
  "publications (events (snd (handle_boxes ext nm frame bs s))) = publications (events s)
   \<and> predict_calls (events (snd (handle_boxes ext nm frame bs s))) = predict_calls (events s)"
  by (induction bs arbitrary: s)
     (simp_all add: draw_BoundingBox_events publications_append predict_calls_append
        overlay_calls_silent split: sum.splits)

lemma handle_results_silent:
  "publications (events (snd (handle_results ext rs frame s))) = publications (events s)"
  "predict_calls (events (snd (handle_results ext rs frame s))) = predict_calls (events s)"
  by (simp_all add: handle_results_snd handle_boxes_silent split: list.splits)

lemma handle_results_config:
  "camera_frame (snd (handle_results ext rs frame s)) = camera_frame s"
  "use_compressed (snd (handle_results ext rs frame s)) = use_compressed s"
  "visualize (snd (handle_results ext rs frame s)) = visualize s"
  "model1 (snd (handle_results ext rs frame s)) = model1 s"
  "model2 (snd (handle_results ext rs frame s)) = model2 s"
  "now_calls (snd (handle_results ext rs frame s)) = now_calls s"
  "color_image (snd (handle_results ext rs frame s)) = color_image s"
  "length (heap (snd (handle_results ext rs frame s))) = length (heap s)"
  by (simp_all add: handle_results_snd handle_boxes_rest split: list.splits)

lemma process_image_predict_calls:
  "set (predict_calls (events (snd (process_image ext s))))
     \<subseteq> set (predict_calls (events s)) \<union> {(1, 3 / 10), (2, 3 / 10)}"
proof (cases "color_image s")
  case None
  then show ?thesis by (auto simp add: process_image_def)
next
  case (Some a)
  show ?thesis
    by (simp add: process_image_unfold [OF Some] Let_def emit_def publish_image_events
        handle_results_silent predict_calls_append
        split: sum.splits list.splits)
       (auto simp add: predict_calls_def)
qed

lemma process_image_both_floors:
  assumes "color_image s = Some a"
    and "predict ext (model1 s) (heap s ! a) (3 / 10) = Inr r1"
  shows "predict_calls (events (snd (process_image ext s)))
           = predict_calls (events s) @ [(1, 3 / 10), (2, 3 / 10)]"
  by (simp add: process_image_unfold [OF assms(1)] assms(2) Let_def emit_def publish_image_events
        handle_results_silent predict_calls_append
        split: sum.splits list.splits)
     (simp add: predict_calls_def)

lemma decode_compressed_events: "events (snd (decode_compressed ext imsg s)) = events s"
  by (simp add: decode_compressed_def assign_color_image_def Let_def split: sum.splits option.splits)

lemma deliver_predict_calls:
  "set (predict_calls (events (snd (deliver ext m s))))
     \<subseteq> set (predict_calls (events s)) \<union> {(1, 3 / 10), (2, 3 / 10)}"
proof (cases m)
  case (Raw imsg)
  show ?thesis
    using process_image_predict_calls [of ext "snd (decode_raw imsg s)"]
      decode_raw_events [of imsg s]
    by (cases "decode_raw imsg s")
       (auto simp add: Raw deliver_def image_callback_def split: sum.splits)
next
  case (Compressed imsg)
  show ?thesis
    using process_image_predict_calls [of ext "snd (decode_compressed ext imsg s)"]
      decode_compressed_events [of ext imsg s]
    by (cases "decode_compressed ext imsg s")
       (auto simp add: Compressed deliver_def compressed_image_callback_def split: sum.splits)
qed

lemma spin_predict_calls:
  "set (predict_calls (events (spin ext msgs s)))
     \<subseteq> set (predict_calls (events s)) \<union> {(1, 3 / 10), (2, 3 / 10)}"
proof (induction msgs arbitrary: s)
  case Nil
  then show ?case by auto
next
  case (Cons m msgs)
  from Cons.IH [of "snd (deliver ext m s)"] deliver_predict_calls [of ext m s]
  show ?case by auto
qed

text \<open>
  C8: whatever the parameter server holds for \<open>conf\<close>, the constructor stores that value
  (0.5 when it is not set) in the attribute \<open>conf\<close> of each of the two models, and every
  detector call the node ever makes, for either model and on every frame, passes the
  constant 0.3 as the per-call confidence; a pass in which the first detector returns
  calls the first and then the second model, both with 0.3.
\<close>

theorem floor_is_fixed_threshold_is_configured:
  "yolo_conf (model1 (init ps)) = Some (get_param (p_conf ps) (1 / 2))
   \<and> yolo_conf (model2 (init ps)) = Some (get_param (p_conf ps) (1 / 2))
   \<and> set (predict_calls (events (spin ext msgs (init ps)))) \<subseteq> {(1, 3 / 10), (2, 3 / 10)}
   \<and> (\<forall>s a r1. color_image s = Some a
          \<longrightarrow> predict ext (model1 s) (heap s ! a) (3 / 10) = Inr r1
          \<longrightarrow> predict_calls (events (snd (process_image ext s)))
                = predict_calls (events s) @ [(1, 3 / 10), (2, 3 / 10)])"
proof -
  have "predict_calls (events (init ps)) = []"
    by (simp add: init_def Let_def predict_calls_def)
  with spin_predict_calls [of ext msgs "init ps"]
  have "set (predict_calls (events (spin ext msgs (init ps)))) \<subseteq> {(1, 3 / 10), (2, 3 / 10)}"
    by simp
  moreover have "yolo_conf (model1 (init ps)) = Some (get_param (p_conf ps) (1 / 2))"
    "yolo_conf (model2 (init ps)) = Some (get_param (p_conf ps) (1 / 2))"
    by (simp_all add: init_def Let_def load_YOLO_def)
  ultimately show ?thesis using process_image_both_floors by blast
qed

theorem floor_is_fixed_threshold_is_configured_witness:
  "p_conf demo_params = Some (7 / 10)
   \<and> yolo_conf (model1 (init demo_params)) = Some (7 / 10)
   \<and> yolo_conf (model2 (init demo_params)) = Some (7 / 10)
   \<and> predict_calls (events (spin demo_extern [Raw (raw_frame 1 1 [1, 2, 3]), Raw (raw_frame 1 1 [0, 0, 0])]
        (init demo_params)))
      = [(1, 3 / 10), (2, 3 / 10), (1, 3 / 10), (2, 3 / 10)]
   \<and> color_image demo_decoded = Some 1
   \<and> predict demo_extern (model1 demo_decoded) (heap demo_decoded ! 1) (3 / 10) = Inr [demo_results1]
   \<and> predict_calls (events (snd (process_image demo_extern demo_decoded))) = [(1, 3 / 10), (2, 3 / 10)]"
proof -
  have h1: "color_image demo_decoded = Some 1" by (simp add: demo_defs)
  have h2: "predict demo_extern (model1 demo_decoded) (heap demo_decoded ! 1) (3 / 10) = Inr [demo_results1]"
    by (simp add: demo_defs)
  have h3: "predict_calls (events demo_decoded) = []" by (simp add: demo_defs predict_calls_def)
  have v: "predict_calls (events (spin demo_extern [Raw (raw_frame 1 1 [1, 2, 3]), Raw (raw_frame 1 1 [0, 0, 0])]
        (init demo_params)))
      = [(1, 3 / 10), (2, 3 / 10), (1, 3 / 10), (2, 3 / 10)]"
    by (simp add: demo_defs run_defs predict_calls_def)
  have p: "p_conf demo_params = Some (7 / 10)" by (simp add: demo_params_def)
  show ?thesis
    using h1 h2 h3 v p
      floor_is_fixed_threshold_is_configured [of demo_params demo_extern
        "[Raw (raw_frame 1 1 [1, 2, 3]), Raw (raw_frame 1 1 [0, 0, 0])]"]
    by (simp add: get_param_def)
qed

subsection \<open>The annotated-image message\<close>

lemma publications_simps:
  "publications [] = []" "publications (e # es) = publication e @ publications es"
  by (simp_all add: publications_def)

lemma handle_boxes_length:
  assumes "draws_in_place ext" and "f < length (heap s)"
  shows "length (buf (heap (snd (handle_boxes ext nm f bs s)) ! f)) = length (buf (heap s ! f))"
  using assms(2)
proof (induction bs arbitrary: s)
  case Nil
  then show ?case by simp
next
  case (Cons b bs)
  show ?case
  proof (cases "fill_BoundingBox nm b")
    case (Inl e)
    then show ?thesis by simp
  next
    case (Inr bb)
    have l: "f < length (heap (draw_BoundingBox ext f bb s))"
      using Cons.prems by (simp add: draw_BoundingBox_heap)
    have "length (buf (heap (draw_BoundingBox ext f bb s) ! f)) = length (buf (heap s ! f))"
      using Cons.prems assms(1) by (simp add: draw_BoundingBox_heap draws_in_place_def)
    with Cons.IH [OF l] Inr show ?thesis by simp
  qed
qed

lemma handle_results_length:
  assumes "draws_in_place ext" and "f < length (heap s)"
  shows "length (buf (heap (snd (handle_results ext rs f s)) ! f)) = length (buf (heap s ! f))"
  using handle_boxes_length [OF assms]
  by (simp add: handle_results_snd split: list.splits)

lemma process_image_publication:
  assumes "draws_in_place ext" and "color_image s = Some a" and "a < length (heap s)"
  shows "publications (events (snd (process_image ext s))) = publications (events s)
    \<or> (\<exists>m rest. publications (events (snd (process_image ext s)))
                   = publications (events s) @ [(image_pub, Image_message m)]
          \<and> shape (heap s ! a) = height m # width m # rest
          \<and> encoding m = ''rgb8'' \<and> step m = width m * 3
          \<and> length (data m) = length (buf (heap s ! a)))"
proof -
  let ?img = "heap s ! a"
  let ?f = "length (heap s)"
  have len: "length (buf (heap (snd (handle_results ext r2 ?f (snd (handle_results ext r1 ?f s3))) ) ! ?f))
        = length (buf (heap s3 ! ?f))" if "length (heap s3) = Suc ?f" for r1 r2 s3
    using that by (simp add: handle_results_length [OF assms(1)] handle_results_config)
  show ?thesis
    by (auto simp add: process_image_unfold [OF assms(2)] Let_def emit_def publish_image_events
        handle_results_silent publications_append handle_results_config len publications_simps
        split: sum.splits list.splits)
qed

lemma cvtColor_dense:
  assumes "cvtColor_BGR2RGB (Some src) = Inr rgb" and "length (buf src) = prod_list (shape src)"
  shows "\<exists>h w. shape rgb = [h, w, 3] \<and> length (buf rgb) = h * w * 3"
proof -
  from assms(1) obtain h w c where sh: "shape src = [h, w, c]" and c: "c = 3 \<or> c = 4"
    and rgb: "rgb = \<lparr>shape = [h, w, 3], buf = (if c = 3 then bgr2rgb (buf src) else bgra2rgb (buf src))\<rparr>"
    by (auto simp add: cvtColor_BGR2RGB_def split: list.splits if_splits)
  from assms(2) sh have "length (buf src) = h * w * c" by simp
  with c rgb have "length (buf rgb) = h * w * 3"
    by (auto simp add: length_bgr2rgb length_bgra2rgb)
  with rgb show ?thesis by simp
qed

lemma decode_raw_dense:
  assumes "fst (decode_raw imsg s) = Inr ()"
  shows "\<exists>a h w. color_image (snd (decode_raw imsg s)) = Some a
           \<and> a < length (heap (snd (decode_raw imsg s)))
           \<and> shape (heap (snd (decode_raw imsg s)) ! a) = [h, w, 3]
           \<and> length (buf (heap (snd (decode_raw imsg s)) ! a)) = h * w * 3"
proof -
  from assms obtain bgr rgb where r: "reshape (frombuffer (data imsg)) (height imsg) (width imsg) = Inr bgr"
    and c: "cvtColor_BGR2RGB (Some bgr) = Inr rgb"
    by (auto simp add: decode_raw_def Let_def split: sum.splits)
  from r have "length (buf bgr) = prod_list (shape bgr)"
    by (auto simp add: reshape_def frombuffer_def Let_def split: if_splits)
  from cvtColor_dense [OF c this] obtain h w where "shape rgb = [h, w, 3]" "length (buf rgb) = h * w * 3"
    by blast
  then show ?thesis
    by (simp add: decode_raw_def r c Let_def assign_color_image_def nth_append)
qed

lemma decode_compressed_dense:
  assumes "imdecode_dense ext" and "fst (decode_compressed ext imsg s) = Inr ()"
  shows "\<exists>a h w. color_image (snd (decode_compressed ext imsg s)) = Some a
           \<and> a < length (heap (snd (decode_compressed ext imsg s)))
           \<and> shape (heap (snd (decode_compressed ext imsg s)) ! a) = [h, w, 3]
           \<and> length (buf (heap (snd (decode_compressed ext imsg s)) ! a)) = h * w * 3"
proof -
  from assms(2) obtain bgr rgb where r: "imdecode ext (cdata imsg) = Some bgr"
    and c: "cvtColor_BGR2RGB (Some bgr) = Inr rgb"
    by (cases "imdecode ext (cdata imsg)")
       (auto simp add: decode_compressed_def Let_def cvtColor_BGR2RGB_def split: sum.splits)
  from r assms(1) have "length (buf bgr) = prod_list (shape bgr)"
    by (simp add: imdecode_dense_def)
  from cvtColor_dense [OF c this] obtain h w where "shape rgb = [h, w, 3]" "length (buf rgb) = h * w * 3"
    by blast
  then show ?thesis
    by (simp add: decode_compressed_def r c Let_def assign_color_image_def nth_append)
qed

lemma process_image_published_ok:
  assumes "draws_in_place ext" and "color_image s = Some a" and "a < length (heap s)"
    and "shape (heap s ! a) = [h, w, 3]" and "length (buf (heap s ! a)) = h * w * 3"
    and "list_all published_ok (publications (events s))"
  shows "list_all published_ok (publications (events (snd (process_image ext s))))"
  using process_image_publication [OF assms(1,2,3)] assms(4,5,6)
  by auto

lemma deliver_published_ok:
  assumes "draws_in_place ext" and "imdecode_dense ext"
    and "list_all published_ok (publications (events s))"
  shows "list_all published_ok (publications (events (snd (deliver ext m s))))"
proof (cases m)
  case (Raw imsg)
  show ?thesis
  proof (cases "use_compressed s \<or> fst (decode_raw imsg s) \<noteq> Inr ()")
    case True
    then show ?thesis
      using assms(3) decode_raw_events [of imsg s]
      by (cases "decode_raw imsg s") (auto simp add: Raw deliver_def image_callback_def split: sum.splits)
  next
    case False
    then have ok: "fst (decode_raw imsg s) = Inr ()" by simp
    from decode_raw_dense [OF ok] obtain a h w where
      d: "color_image (snd (decode_raw imsg s)) = Some a" "a < length (heap (snd (decode_raw imsg s)))"
         "shape (heap (snd (decode_raw imsg s)) ! a) = [h, w, 3]"
         "length (buf (heap (snd (decode_raw imsg s)) ! a)) = h * w * 3"
      by blast
    have e: "list_all published_ok (publications (events (snd (decode_raw imsg s))))"
      using assms(3) by (simp add: decode_raw_events)
    from process_image_published_ok [OF assms(1) d e] False ok show ?thesis
      by (cases "decode_raw imsg s") (simp add: Raw deliver_def image_callback_def)
  qed
next
  case (Compressed imsg)
  show ?thesis
  proof (cases "\<not> use_compressed s \<or> fst (decode_compressed ext imsg s) \<noteq> Inr ()")
    case True
    then show ?thesis
      using assms(3) decode_compressed_events [of ext imsg s]
      by (cases "decode_compressed ext imsg s")
         (auto simp add: Compressed deliver_def compressed_image_callback_def split: sum.splits)
  next
    case False
    then have ok: "fst (decode_compressed ext imsg s) = Inr ()" by simp
    from decode_compressed_dense [OF assms(2) ok] obtain a h w where
      d: "color_image (snd (decode_compressed ext imsg s)) = Some a"
         "a < length (heap (snd (decode_compressed ext imsg s)))"
         "shape (heap (snd (decode_compressed ext imsg s)) ! a) = [h, w, 3]"
         "length (buf (heap (snd (decode_compressed ext imsg s)) ! a)) = h * w * 3"
      by blast
    have e: "list_all published_ok (publications (events (snd (decode_compressed ext imsg s))))"
      using assms(3) by (simp add: decode_compressed_events)
    from process_image_published_ok [OF assms(1) d e] False ok show ?thesis
      by (cases "decode_compressed ext imsg s")
         (simp add: Compressed deliver_def compressed_image_callback_def)
  qed
qed

lemma spin_published_ok:
  assumes "draws_in_place ext" and "imdecode_dense ext"
  shows "list_all published_ok (publications (events s))
     \<Longrightarrow> list_all published_ok (publications (events (spin ext msgs s)))"
proof (induction msgs arbitrary: s)
  case Nil
  then show ?case by simp
next
  case (Cons m msgs)
  from Cons.IH [OF deliver_published_ok [OF assms Cons.prems]] show ?case by simp
qed

text \<open>
  C9: with drawing routines that draw in place and a decoder that returns dense arrays,
  every message the node ever publishes is an image on \<open>image_pub\<close> with encoding
  \<open>rgb8\<close>, a step of three times its width and \<open>height * width * 3\<close> bytes of data,
  which is \<open>height * step\<close>. In each pass the height and the width of the message are
  the first two dimensions of the array \<open>self.color_image\<close> refers to, and the data has
  as many bytes as that array.
\<close>

theorem annotated_image_message_is_consistent:
  assumes "draws_in_place ext" and "imdecode_dense ext"
  shows "(\<forall>(p, msg) \<in> set (publications (events (spin ext msgs (init ps)))).
            p = image_pub
            \<and> (\<exists>m. msg = Image_message m \<and> encoding m = ''rgb8'' \<and> step m = width m * 3
                   \<and> length (data m) = height m * width m * 3
                   \<and> length (data m) = height m * step m))
    \<and> (\<forall>s a. color_image s = Some a \<longrightarrow> a < length (heap s) \<longrightarrow>
          publications (events (snd (process_image ext s))) = publications (events s)
          \<or> (\<exists>m rest. publications (events (snd (process_image ext s)))
                         = publications (events s) @ [(image_pub, Image_message m)]
                \<and> shape (heap s ! a) = height m # width m # rest
                \<and> encoding m = ''rgb8'' \<and> step m = width m * 3
                \<and> length (data m) = length (buf (heap s ! a))))"
proof -
  have "list_all published_ok (publications (events (init ps)))"
    by (simp add: init_def Let_def publications_def)
  from spin_published_ok [OF assms this, of msgs]
  have "\<forall>x \<in> set (publications (events (spin ext msgs (init ps)))). published_ok x"
    by (simp add: list_all_iff)
  then have "\<forall>(p, msg) \<in> set (publications (events (spin ext msgs (init ps)))).
            p = image_pub
            \<and> (\<exists>m. msg = Image_message m \<and> encoding m = ''rgb8'' \<and> step m = width m * 3
                   \<and> length (data m) = height m * width m * 3
                   \<and> length (data m) = height m * step m)"
    by (auto elim!: published_ok.elims)
  with process_image_publication [OF assms(1)] show ?thesis by blast
qed

text \<open>The message published for the one-pixel frame with BGR bytes 1, 2, 3.\<close>

theorem annotated_image_message_is_consistent_witness:
  "draws_in_place demo_extern \<and> imdecode_dense demo_extern
   \<and> publications (events (spin demo_extern [Raw (raw_frame 1 1 [1, 2, 3])] (init demo_params)))
      = [(image_pub, Image_message
           \<lparr>header = \<lparr>stamp = 100, frame_id = ''cam''\<rparr>, height = 1, width = 1,
            encoding = ''rgb8'', step = 3, data = [0, 255, 1]\<rparr>)]
   \<and> color_image demo_decoded = Some 1 \<and> 1 < length (heap demo_decoded)
   \<and> shape (heap demo_decoded ! 1) = [1, 1, 3]"
proof -
  have h1: "draws_in_place demo_extern" by (simp add: draws_in_place_def demo_extern_def)
  have h2: "imdecode_dense demo_extern" by (auto simp add: imdecode_dense_def demo_extern_def)
  have v: "publications (events (spin demo_extern [Raw (raw_frame 1 1 [1, 2, 3])] (init demo_params)))
      = [(image_pub, Image_message
           \<lparr>header = \<lparr>stamp = 100, frame_id = ''cam''\<rparr>, height = 1, width = 1,
            encoding = ''rgb8'', step = 3, data = [0, 255, 1]\<rparr>)]"
    by (simp add: demo_defs run_defs publications_def)
  have d: "color_image demo_decoded = Some 1" "1 < length (heap demo_decoded)"
    "shape (heap demo_decoded ! 1) = [1, 1, 3]"
    by (simp_all add: demo_defs)
  show ?thesis
    using h1 h2 v d
      annotated_image_message_is_consistent [OF h1 h2, of "[Raw (raw_frame 1 1 [1, 2, 3])]" demo_params]
    by simp
qed

subsection \<open>A detector that fails\<close>

lemma agree_emit:
  "publication e = [] \<Longrightarrow> publication e' = [] \<Longrightarrow> agree s t \<Longrightarrow> agree (emit e s) (emit e' t)"
  by (simp add: agree_def emit_def publications_append publications_simps)

lemma agree_emit_left:
  "publication e = [] \<Longrightarrow> agree s t \<Longrightarrow> agree (emit e s) t"
  by (simp add: agree_def emit_def publications_append publications_simps)

lemma agree_heap: "agree s t \<Longrightarrow> agree (s\<lparr>heap := h\<rparr>) (t\<lparr>heap := h'\<rparr>)"
  by (simp add: agree_def)

lemma agree_assign: "agree s t \<Longrightarrow> agree (assign_color_image x s) (assign_color_image y t)"
  by (simp add: agree_def assign_color_image_def)

lemma agree_handle_results:
  "agree s t \<Longrightarrow> agree (snd (handle_results ext rs f s)) (snd (handle_results ext rs' g t))"
  by (simp add: agree_def handle_results_config handle_results_silent)

lemma agree_publish_image:
  "agree s t \<Longrightarrow> agree (publish_image ext d h w s) (publish_image ext d h w t)"
  by (simp add: agree_def publish_image_def emit_def Let_def publications_append)

lemma handle_boxes_fst_indep:
  "fst (handle_boxes ext nm f bs s) = fst (handle_boxes ext nm g bs t)"
proof (induction bs arbitrary: s t)
  case Nil
  show ?case by simp
next
  case (Cons b bs)
  show ?case
  proof (cases "fill_BoundingBox nm b")
    case (Inl e)
    then show ?thesis by simp
  next
    case (Inr bb)
    from Cons.IH [of "draw_BoundingBox ext f bb s" "draw_BoundingBox ext g bb t"] Inr
    show ?thesis by simp
  qed
qed

lemma handle_boxes_cell:
  assumes "f < length (heap s)" and "g < length (heap t)" and "heap s ! f = heap t ! g"
  shows "heap (snd (handle_boxes ext nm f bs s)) ! f = heap (snd (handle_boxes ext nm g bs t)) ! g"
  using assms
proof (induction bs arbitrary: s t)
  case Nil
  then show ?case by simp
next
  case (Cons b bs)
  show ?case
  proof (cases "fill_BoundingBox nm b")
    case (Inl e)
    with Cons.prems show ?thesis by simp
  next
    case (Inr bb)
    have "heap (draw_BoundingBox ext f bb s) ! f = heap (draw_BoundingBox ext g bb t) ! g"
      "f < length (heap (draw_BoundingBox ext f bb s))"
      "g < length (heap (draw_BoundingBox ext g bb t))"
      using Cons.prems by (simp_all add: draw_BoundingBox_heap)
    from Cons.IH [OF this(2,3,1)] Inr show ?thesis by simp
  qed
qed

lemma handle_results_cell:
  assumes "f < length (heap s)" and "g < length (heap t)" and "heap s ! f = heap t ! g"
  shows "heap (snd (handle_results ext rs f s)) ! f = heap (snd (handle_results ext rs g t)) ! g"
  using handle_boxes_cell [OF assms] assms(3)
  by (simp add: handle_results_snd split: list.splits)

lemma handle_results_fst_rel:
  "fst (handle_results ext rs f s) = Inl e \<Longrightarrow> fst (handle_results ext rs g t) = Inl e"
  "fst (handle_results ext rs f s) = Inr x \<Longrightarrow> fst (handle_results ext rs g t) = Inr g"
proof -
  show "fst (handle_results ext rs f s) = Inl e \<Longrightarrow> fst (handle_results ext rs g t) = Inl e"
  proof (cases rs)
    case Nil
    then show "fst (handle_results ext rs f s) = Inl e \<Longrightarrow> ?thesis" by (simp add: handle_results_def)
  next
    case (Cons r rest)
    assume "fst (handle_results ext rs f s) = Inl e"
    then have "fst (handle_boxes ext (names r) f (boxes r) s) = Inl e"
      by (simp add: Cons handle_results_unfold split: sum.splits)
    then have "fst (handle_boxes ext (names r) g (boxes r) t) = Inl e"
      using handle_boxes_fst_indep [of ext "names r" f "boxes r" s g t] by simp
    then show ?thesis by (simp add: Cons handle_results_unfold)
  qed
  show "fst (handle_results ext rs f s) = Inr x \<Longrightarrow> fst (handle_results ext rs g t) = Inr g"
  proof (cases rs)
    case Nil
    then show "fst (handle_results ext rs f s) = Inr x \<Longrightarrow> ?thesis" by (simp add: handle_results_def)
  next
    case (Cons r rest)
    assume "fst (handle_results ext rs f s) = Inr x"
    then obtain u where "fst (handle_boxes ext (names r) f (boxes r) s) = Inr u"
      by (simp add: Cons handle_results_unfold split: sum.splits)
    then have "fst (handle_boxes ext (names r) g (boxes r) t) = Inr u"
      using handle_boxes_fst_indep [of ext "names r" f "boxes r" s g t] by simp
    then show ?thesis by (simp add: Cons handle_results_unfold)
  qed
qed

lemma process_image_staged:
  assumes c: "color_image s = Some a"
    and p1: "predict ext (model1 s) (heap s ! a) (3 / 10) = Inr r1"
    and p2: "predict ext (model2 s) (heap s ! a) (3 / 10) = Inr r2"
    and s3: "s3 = (emit (Predict 2 (heap s ! a) (3 / 10))
                    (emit (Predict 1 (heap s ! a) (3 / 10)) s))\<lparr>heap := heap s @ [heap s ! a]\<rparr>"
    and s4: "s4 = snd (handle_results ext r1 (length (heap s)) s3)"
    and s5: "s5 = snd (handle_results ext r2 (length (heap s)) s4)"
  shows "process_image ext s =
     (case fst (handle_results ext r1 (length (heap s)) s3) of
        Inl e \<Rightarrow> (Inl e, s4)
      | Inr _ \<Rightarrow>
          (case fst (handle_results ext r2 (length (heap s)) s4) of
             Inl e \<Rightarrow> (Inl e, s5)
           | Inr _ \<Rightarrow>
               (case shape (heap s ! a) of
                  h # w # _ \<Rightarrow>
                    (if visualize s
                     then (Inr (), emit (WaitKey 1)
                             (emit (Imshow ''YOLOv8 Combined Detection''
                                      (heap (publish_image ext (heap s5 ! length (heap s)) h w s5)
                                         ! length (heap s)))
                                (publish_image ext (heap s5 ! length (heap s)) h w s5)))
                     else (Inr (), publish_image ext (heap s5 ! length (heap s)) h w s5))
                | _ \<Rightarrow> (Inl IndexError, s5))))"
  unfolding s5 s4 s3
  by (simp add: process_image_unfold [OF c] p1 p2 Let_def emit_def split: sum.splits list.splits)

lemma process_image_agree:
  assumes ag: "agree s t" and cs: "color_image s = Some a" and ct: "color_image t = Some b"
    and la: "a < length (heap s)" and lb: "b < length (heap t)" and eq: "heap s ! a = heap t ! b"
  shows "fst (process_image ext s) = fst (process_image ext t)
    \<and> agree (snd (process_image ext s)) (snd (process_image ext t))"
proof -
  let ?img = "heap s ! a"
  let ?P1 = "Predict 1 ?img (3 / 10)" and ?P2 = "Predict 2 ?img (3 / 10)"
  have m: "model1 t = model1 s" "model2 t = model2 s" "visualize t = visualize s"
    using ag by (simp_all add: agree_def)
  have silent: "publication ?P1 = []" "publication ?P2 = []" by simp_all
  have a1: "agree (emit ?P1 s) (emit ?P1 t)" by (rule agree_emit [OF silent(1) silent(1) ag])
  have a2: "agree (emit ?P2 (emit ?P1 s)) (emit ?P2 (emit ?P1 t))"
    by (rule agree_emit [OF silent(2) silent(2) a1])
  show ?thesis
  proof (cases "predict ext (model1 s) ?img (3 / 10)")
    case (Inl e)
    have "process_image ext s = (Inl e, emit ?P1 s)"
      by (simp add: process_image_unfold [OF cs] Inl Let_def)
    moreover have "process_image ext t = (Inl e, emit ?P1 t)"
      using Inl by (simp add: process_image_unfold [OF ct] eq [symmetric] m Let_def)
    ultimately show ?thesis using a1 by simp
  next
    case r1: (Inr r1)
    show ?thesis
    proof (cases "predict ext (model2 s) ?img (3 / 10)")
      case (Inl e)
      have "process_image ext s = (Inl e, emit ?P2 (emit ?P1 s))"
        by (simp add: process_image_unfold [OF cs] r1 Inl Let_def)
      moreover have "process_image ext t = (Inl e, emit ?P2 (emit ?P1 t))"
        using r1 Inl by (simp add: process_image_unfold [OF ct] eq [symmetric] m Let_def)
      ultimately show ?thesis using a2 by simp
    next
      case r2: (Inr r2)
      let ?fs = "length (heap s)" and ?ft = "length (heap t)"
      define s3 where "s3 = (emit ?P2 (emit ?P1 s))\<lparr>heap := heap s @ [?img]\<rparr>"
      define s4 where "s4 = snd (handle_results ext r1 ?fs s3)"
      define s5 where "s5 = snd (handle_results ext r2 ?fs s4)"
      define t3 where "t3 = (emit (Predict 2 (heap t ! b) (3 / 10))
                    (emit (Predict 1 (heap t ! b) (3 / 10)) t))\<lparr>heap := heap t @ [heap t ! b]\<rparr>"
      define t4 where "t4 = snd (handle_results ext r1 ?ft t3)"
      define t5 where "t5 = snd (handle_results ext r2 ?ft t4)"
      have t3': "t3 = (emit ?P2 (emit ?P1 t))\<lparr>heap := heap t @ [?img]\<rparr>"
        by (simp add: t3_def eq)
      have a3: "agree s3 t3" unfolding s3_def t3' by (rule agree_heap [OF a2])
      have a4: "agree s4 t4" unfolding s4_def t4_def by (rule agree_handle_results [OF a3])
      have a5: "agree s5 t5" unfolding s5_def t5_def by (rule agree_handle_results [OF a4])
      have l3: "?fs < length (heap s3)" "?ft < length (heap t3)"
        and c3: "heap s3 ! ?fs = heap t3 ! ?ft"
        by (simp_all add: s3_def t3' emit_def)
      have l4: "?fs < length (heap s4)" "?ft < length (heap t4)"
        using l3 by (simp_all add: s4_def t4_def handle_results_config)
      have c4: "heap s4 ! ?fs = heap t4 ! ?ft"
        unfolding s4_def t4_def by (rule handle_results_cell [OF l3 c3])
      have c5: "heap s5 ! ?fs = heap t5 ! ?ft"
        unfolding s5_def t5_def by (rule handle_results_cell [OF l4 c4])
      have pt: "predict ext (model1 t) (heap t ! b) (3 / 10) = Inr r1"
        "predict ext (model2 t) (heap t ! b) (3 / 10) = Inr r2"
        using r1 r2 by (simp_all add: m eq)
      note S = process_image_staged [OF cs r1 r2 s3_def s4_def s5_def]
      note T = process_image_staged [OF ct pt t3_def t4_def t5_def]
      show ?thesis
      proof (cases "fst (handle_results ext r1 ?fs s3)")
        case (Inl e)
        from handle_results_fst_rel(1) [OF Inl] have "fst (handle_results ext r1 ?ft t3) = Inl e" .
        with Inl a4 show ?thesis by (simp add: S T)
      next
        case h1: (Inr x)
        from handle_results_fst_rel(2) [OF h1] have h1t: "fst (handle_results ext r1 ?ft t3) = Inr ?ft" .
        show ?thesis
        proof (cases "fst (handle_results ext r2 ?fs s4)")
          case (Inl e)
          from handle_results_fst_rel(1) [OF Inl] have "fst (handle_results ext r2 ?ft t4) = Inl e" .
          with Inl h1 h1t a5 show ?thesis by (simp add: S T)
        next
          case h2: (Inr y)
          from handle_results_fst_rel(2) [OF h2] have h2t: "fst (handle_results ext r2 ?ft t4) = Inr ?ft" .
          have pub: "agree (publish_image ext (heap s5 ! ?fs) h w s5) (publish_image ext (heap t5 ! ?ft) h w t5)"
            for h w
            using agree_publish_image [OF a5, of ext "heap s5 ! ?fs" h w] by (simp add: c5)
          have vis: "agree (emit (WaitKey 1) (emit (Imshow n x1) (publish_image ext (heap s5 ! ?fs) h w s5)))
                       (emit (WaitKey 1) (emit (Imshow n x2) (publish_image ext (heap t5 ! ?ft) h w t5)))"
            for h w n x1 x2
            by (intro agree_emit pub) simp_all
          show ?thesis
            using h1 h1t h2 h2t a5 pub vis
            by (simp add: S T eq [symmetric] m split: list.splits)
        qed
      qed
    qed
  qed
qed

lemma decode_raw_agree:
  assumes "agree s t"
  shows "fst (decode_raw imsg s) = fst (decode_raw imsg t)
    \<and> agree (snd (decode_raw imsg s)) (snd (decode_raw imsg t))
    \<and> (fst (decode_raw imsg s) = Inr () \<longrightarrow>
         (\<exists>a b. color_image (snd (decode_raw imsg s)) = Some a
              \<and> color_image (snd (decode_raw imsg t)) = Some b
              \<and> a < length (heap (snd (decode_raw imsg s)))
              \<and> b < length (heap (snd (decode_raw imsg t)))
              \<and> heap (snd (decode_raw imsg s)) ! a = heap (snd (decode_raw imsg t)) ! b))"
proof (cases "reshape (frombuffer (data imsg)) (height imsg) (width imsg)")
  case (Inl e)
  with assms show ?thesis by (simp add: decode_raw_def)
next
  case r: (Inr bgr)
  have a1: "agree (assign_color_image bgr s) (assign_color_image bgr t)"
    by (rule agree_assign [OF assms])
  show ?thesis
  proof (cases "cvtColor_BGR2RGB (Some bgr)")
    case (Inl e)
    with r a1 show ?thesis by (simp add: decode_raw_def Let_def)
  next
    case (Inr rgb)
    have "agree (assign_color_image rgb (assign_color_image bgr s))
                (assign_color_image rgb (assign_color_image bgr t))"
      by (rule agree_assign [OF a1])
    with r Inr show ?thesis
      by (simp add: decode_raw_def Let_def) (simp add: assign_color_image_def nth_append)
  qed
qed

lemma decode_compressed_agree:
  assumes "agree s t"
  shows "fst (decode_compressed ext imsg s) = fst (decode_compressed ext imsg t)
    \<and> agree (snd (decode_compressed ext imsg s)) (snd (decode_compressed ext imsg t))
    \<and> (fst (decode_compressed ext imsg s) = Inr () \<longrightarrow>
         (\<exists>a b. color_image (snd (decode_compressed ext imsg s)) = Some a
              \<and> color_image (snd (decode_compressed ext imsg t)) = Some b
              \<and> a < length (heap (snd (decode_compressed ext imsg s)))
              \<and> b < length (heap (snd (decode_compressed ext imsg t)))
              \<and> heap (snd (decode_compressed ext imsg s)) ! a
                  = heap (snd (decode_compressed ext imsg t)) ! b))"
proof (cases "imdecode ext (cdata imsg)")
  case None
  with assms show ?thesis
    by (simp add: decode_compressed_def cvtColor_BGR2RGB_def agree_def)
next
  case r: (Some bgr)
  have a1: "agree (assign_color_image bgr s) (assign_color_image bgr t)"
    by (rule agree_assign [OF assms])
  show ?thesis
  proof (cases "cvtColor_BGR2RGB (Some bgr)")
    case (Inl e)
    with r a1 show ?thesis by (simp add: decode_compressed_def Let_def)
  next
    case (Inr rgb)
    have "agree (assign_color_image rgb (assign_color_image bgr s))
                (assign_color_image rgb (assign_color_image bgr t))"
      by (rule agree_assign [OF a1])
    with r Inr show ?thesis
      by (simp add: decode_compressed_def Let_def) (simp add: assign_color_image_def nth_append)
  qed
qed

lemma deliver_agree:
  assumes "agree s t"
  shows "fst (deliver ext m s) = fst (deliver ext m t)
    \<and> agree (snd (deliver ext m s)) (snd (deliver ext m t))"
proof -
  have u: "use_compressed t = use_compressed s" using assms by (simp add: agree_def)
  show ?thesis
  proof (cases m)
    case (Raw imsg)
    note d = decode_raw_agree [OF assms, of imsg]
    show ?thesis
    proof (cases "fst (decode_raw imsg s)")
      case (Inl e)
      with d assms show ?thesis
        by (simp add: Raw deliver_def image_callback_def u split: prod.splits sum.splits) auto
    next
      case (Inr x)
      with d obtain a b where
        c: "color_image (snd (decode_raw imsg s)) = Some a" "color_image (snd (decode_raw imsg t)) = Some b"
          "a < length (heap (snd (decode_raw imsg s)))" "b < length (heap (snd (decode_raw imsg t)))"
          "heap (snd (decode_raw imsg s)) ! a = heap (snd (decode_raw imsg t)) ! b"
        by auto
      from d have ag: "agree (snd (decode_raw imsg s)) (snd (decode_raw imsg t))" by simp
      from d Inr have "fst (decode_raw imsg t) = Inr x" by simp
      with Inr process_image_agree [OF ag c, of ext] assms show ?thesis
        by (simp add: Raw deliver_def image_callback_def u split: prod.splits sum.splits) auto
    qed
  next
    case (Compressed imsg)
    note d = decode_compressed_agree [OF assms, of ext imsg]
    show ?thesis
    proof (cases "fst (decode_compressed ext imsg s)")
      case (Inl e)
      with d assms show ?thesis
        by (simp add: Compressed deliver_def compressed_image_callback_def u
            split: prod.splits sum.splits) auto
    next
      case (Inr x)
      with d obtain a b where
        c: "color_image (snd (decode_compressed ext imsg s)) = Some a"
          "color_image (snd (decode_compressed ext imsg t)) = Some b"
          "a < length (heap (snd (decode_compressed ext imsg s)))"
          "b < length (heap (snd (decode_compressed ext imsg t)))"
          "heap (snd (decode_compressed ext imsg s)) ! a = heap (snd (decode_compressed ext imsg t)) ! b"
        by auto
      from d have ag: "agree (snd (decode_compressed ext imsg s)) (snd (decode_compressed ext imsg t))"
        by simp
      from d Inr have "fst (decode_compressed ext imsg t) = Inr x" by simp
      with Inr process_image_agree [OF ag c, of ext] assms show ?thesis
        by (simp add: Compressed deliver_def compressed_image_callback_def u
            split: prod.splits sum.splits) auto
    qed
  qed
qed

lemma spin_agree: "agree s t \<Longrightarrow> agree (spin ext ms s) (spin ext ms t)"
proof (induction ms arbitrary: s t)
  case Nil
  then show ?case by simp
next
  case (Cons m ms)
  from deliver_agree [OF Cons.prems, of ext m]
  have "agree (snd (deliver ext m s)) (snd (deliver ext m t))" by simp
  from Cons.IH [OF this] show ?case by simp
qed

text \<open>
  C6: when the first detector raises on the frame, or the first returns and the second
  raises, \<open>process_image\<close> raises that same exception (the node wraps it in nothing), and
  it has published nothing: neither publisher was called. The callback ends there and
  \<open>rospy\<close> goes on with the next message. From then on the node behaves as if the pass
  had not happened: the callback for any next message returns what it would have
  returned, and for any sequence of further messages the node publishes exactly what
  it would have published.
\<close>

theorem detector_failure_drops_only_that_frame:
  assumes "color_image s = Some a"
    and "predict ext (model1 s) (heap s ! a) (3 / 10) = Inl e
         \<or> (\<exists>r1. predict ext (model1 s) (heap s ! a) (3 / 10) = Inr r1
                \<and> predict ext (model2 s) (heap s ! a) (3 / 10) = Inl e)"
  shows "fst (process_image ext s) = Inl e
    \<and> publications (events (snd (process_image ext s))) = publications (events s)
    \<and> (\<forall>m. fst (deliver ext m (snd (process_image ext s))) = fst (deliver ext m s))
    \<and> (\<forall>ms. publications (events (spin ext ms (snd (process_image ext s))))
             = publications (events (spin ext ms s)))"
proof -
  let ?s' = "snd (process_image ext s)"
  have r: "fst (process_image ext s) = Inl e"
    using assms(2) by (auto simp add: process_image_unfold [OF assms(1)] Let_def)
  have "agree s s" by (simp add: agree_def)
  then have ag: "agree ?s' s"
    using assms(2)
    by (auto simp add: process_image_unfold [OF assms(1)] Let_def intro!: agree_emit_left)
  have "publications (events ?s') = publications (events s)"
    using ag by (simp add: agree_def)
  moreover have "fst (deliver ext m ?s') = fst (deliver ext m s)" for m
    using deliver_agree [OF ag] by simp
  moreover have "publications (events (spin ext ms ?s')) = publications (events (spin ext ms s))" for ms
    using spin_agree [OF ag, of ext ms] by (simp add: agree_def)
  ultimately show ?thesis using r by blast
qed

text \<open>
  On the frame of all nines the first detector returns and the second raises. Nothing
  is published for it, and the frame delivered next is published as usual.
\<close>

theorem detector_failure_drops_only_that_frame_witness:
  "color_image demo_failing = Some 1
   \<and> predict demo_extern (model1 demo_failing) (heap demo_failing ! 1) (3 / 10) = Inr [demo_results1]
   \<and> predict demo_extern (model2 demo_failing) (heap demo_failing ! 1) (3 / 10)
       = Inl (Detector_error ''CUDA error'')
   \<and> fst (process_image demo_extern demo_failing) = Inl (Detector_error ''CUDA error'')
   \<and> publications (events (snd (process_image demo_extern demo_failing))) = []
   \<and> publications (events (spin demo_extern
        [Raw (raw_frame 1 1 [9, 9, 9]), Raw (raw_frame 1 1 [1, 2, 3])] (init demo_params)))
      = [(image_pub, Image_message
           \<lparr>header = \<lparr>stamp = 100, frame_id = ''cam''\<rparr>, height = 1, width = 1,
            encoding = ''rgb8'', step = 3, data = [0, 255, 1]\<rparr>)]"
proof -
  have h1: "color_image demo_failing = Some 1" by (simp add: demo_defs)
  have p1: "predict demo_extern (model1 demo_failing) (heap demo_failing ! 1) (3 / 10) = Inr [demo_results1]"
    by (simp add: demo_defs)
  have p2: "predict demo_extern (model2 demo_failing) (heap demo_failing ! 1) (3 / 10)
       = Inl (Detector_error ''CUDA error'')"
    by (simp add: demo_defs)
  have h2: "predict demo_extern (model1 demo_failing) (heap demo_failing ! 1) (3 / 10)
              = Inl (Detector_error ''CUDA error'')
         \<or> (\<exists>r1. predict demo_extern (model1 demo_failing) (heap demo_failing ! 1) (3 / 10) = Inr r1
                \<and> predict demo_extern (model2 demo_failing) (heap demo_failing ! 1) (3 / 10)
                    = Inl (Detector_error ''CUDA error''))"
    using p1 p2 by blast
  have e: "publications (events demo_failing) = []" by (simp add: demo_defs publications_def)
  have v: "publications (events (spin demo_extern
        [Raw (raw_frame 1 1 [9, 9, 9]), Raw (raw_frame 1 1 [1, 2, 3])] (init demo_params)))
      = [(image_pub, Image_message
           \<lparr>header = \<lparr>stamp = 100, frame_id = ''cam''\<rparr>, height = 1, width = 1,
            encoding = ''rgb8'', step = 3, data = [0, 255, 1]\<rparr>)]"
    by (simp add: demo_defs run_defs publications_def)
  show ?thesis
    using h1 p1 p2 e v detector_failure_drops_only_that_frame [OF h1 h2]
    by simp
qed

end
